theory Spec2Isabelle
  imports Main
begin

section \<open>JavaScript values and library calls the program relies on\<close>

text \<open>
  The bridge and the channel test strings and nullable strings for truthiness
  (\<^verbatim>\<open>if (!this.currentSpeakEventId)\<close>, \<^verbatim>\<open>event.audio || event.delta\<close>):
  \<^verbatim>\<open>null\<close>, \<^verbatim>\<open>undefined\<close> and the empty string are falsy.
\<close>

definition truthy :: "string option \<Rightarrow> bool" where
  "truthy v = (case v of None \<Rightarrow> False | Some s \<Rightarrow> s \<noteq> [])"

definition js_or :: "string option \<Rightarrow> string option \<Rightarrow> string option" where
  "js_or a b = (if truthy a then a else b)"

text \<open>
  \<^verbatim>\<open>String.prototype.substring(start, end)\<close>: both indices are clamped to the
  length of the string and swapped when \<open>start > end\<close>.
\<close>

definition substring :: "string \<Rightarrow> nat \<Rightarrow> nat \<Rightarrow> string" where
  "substring s a b =
     (let a' = min a (length s); b' = min b (length s)
      in take (max a' b' - min a' b') (drop (min a' b') s))"

text \<open>The decimal rendering of a non-negative integer inside a template literal.\<close>

definition digit_char :: "nat \<Rightarrow> char" where
  "digit_char d = ''0123456789'' ! d"

function dec :: "nat \<Rightarrow> string" where
  "dec n = (if n < 10 then [digit_char n] else dec (n div 10) @ [digit_char (n mod 10)])"
  by pat_completeness auto
termination
  by (relation "measure id") auto

declare dec.simps [simp del]

definition is_digit :: "char \<Rightarrow> bool" where
  "is_digit ch = (ch \<in> set ''0123456789'')"

definition is_base36 :: "char \<Rightarrow> bool" where
  "is_base36 ch = (ch \<in> set ''0123456789abcdefghijklmnopqrstuvwxyz'')"

text \<open>
  \<^verbatim>\<open>Math.random().toString(36)\<close> is computed by the JavaScript engine from a
  double in \<open>[0, 1)\<close>. Its text is \<^verbatim>\<open>0\<close> for the number zero and otherwise
  \<^verbatim>\<open>0.\<close> followed by one or more base-36 digits (\<^verbatim>\<open>0-9a-z\<close>), as few as
  identify the double: \<^verbatim>\<open>(0.5).toString(36)\<close> is \<^verbatim>\<open>0.i\<close>. The model takes that
  text as an input; \<open>random36\<close> says which texts the engine can produce.
\<close>

definition random36 :: "string \<Rightarrow> bool" where
  "random36 r = (r = ''0'' \<or> (take 2 r = ''0.'' \<and> drop 2 r \<noteq> [] \<and> list_all is_base36 (drop 2 r)))"

section \<open>The runtime: sockets, timers, console, clock\<close>

datatype readyState = CONNECTING | OPEN | CLOSING | CLOSED

datatype level = LOG | WARN | ERROR

datatype callback = Reconnect | SpeakEnd

datatype error = WsNotOpen | ClientNotAvailable | UnhandledError

text \<open>
  The promise returned by one call of \<open>connect\<close>: pending or settled. The flag of a
  pending promise says whether its rejection is printed by \<^verbatim>\<open>.catch(console.error)\<close>,
  as for the call made by the reconnection callback.
\<close>

datatype promise = Pending bool | Settled

text \<open>The envelope of every outbound command: \<^verbatim>\<open>{type, event_id, audio?}\<close>.\<close>

record HeyGenWebSocketEvent =
  type :: string
  event_id :: string
  audio :: "string option"

text \<open>
  Everything outside the two objects: the WebSocket instances created so far (a
  handle is the index in \<open>sockets\<close>) and the promise of the \<open>connect\<close> call that
  created each, the frames written to them in order, the running \<^verbatim>\<open>setInterval\<close>
  timers, the pending \<^verbatim>\<open>setTimeout\<close> callbacks with their delays in milliseconds,
  the console, the notifications emitted by the channel, the exceptions thrown out
  of an event handler and caught by nobody, and the readings of \<^verbatim>\<open>Date.now()\<close> and
  \<^verbatim>\<open>Math.random().toString(36)\<close>: the \<open>k\<close>-th identifier generated reads
  \<open>entropy k\<close>.
\<close>

record runtime =
  sockets :: "readyState list"
  promises :: "promise list"
  sent :: "(nat \<times> HeyGenWebSocketEvent) list"
  intervals :: "nat list"
  timeouts :: "(callback \<times> nat) list"
  timers :: nat
  console :: "(level \<times> string) list"
  emitted :: "string list"
  uncaught :: "error list"
  entropy :: "nat \<Rightarrow> nat \<times> string"
  calls :: nat

definition console_log :: "level \<Rightarrow> string \<Rightarrow> runtime \<Rightarrow> runtime" where
  "console_log l m rt = rt\<lparr>console := console rt @ [(l, m)]\<rparr>"

definition readyStateOf :: "runtime \<Rightarrow> nat \<Rightarrow> readyState" where
  "readyStateOf rt h = (if h < length (sockets rt) then sockets rt ! h else CLOSED)"

text \<open>
  \<^verbatim>\<open>ws.send(message)\<close> of the \<^verbatim>\<open>ws\<close> package, called without a callback: it throws
  while the socket is still connecting, writes the frame when the socket is open,
  and drops the data once the socket is closing or closed.
\<close>

definition ws_send :: "nat \<Rightarrow> HeyGenWebSocketEvent \<Rightarrow> runtime \<Rightarrow> error + runtime" where
  "ws_send h m rt =
     (case readyStateOf rt h of
        CONNECTING \<Rightarrow> Inl WsNotOpen
      | OPEN \<Rightarrow> Inr (rt\<lparr>sent := sent rt @ [(h, m)]\<rparr>)
      | CLOSING \<Rightarrow> Inr rt
      | CLOSED \<Rightarrow> Inr rt)"

text \<open>\<^verbatim>\<open>ws.close(1000, ...)\<close>: starts the closing handshake unless the socket is closed.\<close>

definition ws_close :: "nat \<Rightarrow> runtime \<Rightarrow> runtime" where
  "ws_close h rt =
     (if h < length (sockets rt) \<and> sockets rt ! h \<noteq> CLOSED
      then rt\<lparr>sockets := (sockets rt)[h := CLOSING]\<rparr> else rt)"

section \<open>HeyGenWebSocketClient (heygen\_websocket.ts)\<close>

record HeyGenWebSocketClient =
  ws :: "nat option"
  reconnectAttempts :: nat
  maxReconnectAttempts :: nat
  reconnectDelay :: nat
  isConnected :: bool
  heartbeatInterval :: "nat option"
  errorListener :: bool

text \<open>
  The field initialisers of the class. The constructor sets only the identity fields
  (session identifier, endpoint, credential); they take no part in what follows and are left out.
  The class extends \<^verbatim>\<open>EventEmitter\<close>: \<open>errorListener\<close> says whether the application has
  registered a listener for \<^verbatim>\<open>error\<close> on the channel with \<^verbatim>\<open>on('error', ...)\<close>. A new
  channel has none, and the repository registers none.
\<close>

definition new_client :: HeyGenWebSocketClient where
  "new_client = \<lparr>ws = None, reconnectAttempts = 0, maxReconnectAttempts = 5,
     reconnectDelay = 1000, isConnected = False, heartbeatInterval = None,
     errorListener = False\<rparr>"

type_synonym cstate = "HeyGenWebSocketClient \<times> runtime"

text \<open>
  \<^verbatim>\<open>`${Date.now()}_${Math.random().toString(36).substring(2, 9)}`\<close>, from the reading
  \<open>now\<close> of the clock (milliseconds since 1970, a natural number) and the text \<open>rnd\<close>
  of \<^verbatim>\<open>Math.random().toString(36)\<close>.
\<close>

definition formatEventId :: "nat \<Rightarrow> string \<Rightarrow> string" where
  "formatEventId now rnd = dec now @ ''_'' @ substring rnd 2 9"

definition generateEventId :: "runtime \<Rightarrow> string \<times> runtime" where
  "generateEventId rt =
     (formatEventId (fst (entropy rt (calls rt))) (snd (entropy rt (calls rt))),
      rt\<lparr>calls := Suc (calls rt)\<rparr>)"

definition send :: "HeyGenWebSocketEvent \<Rightarrow> HeyGenWebSocketClient \<Rightarrow> runtime \<Rightarrow> error + runtime" where
  "send event c rt =
     (if ws c \<noteq> None \<and> isConnected c then
        (case ws_send (the (ws c)) event rt of
           Inl e \<Rightarrow> Inl e
         | Inr rt1 \<Rightarrow>
             let rt2 = console_log LOG (''Sent HeyGen event: '' @ type event) rt1
             in Inr (if type event = ''agent.speak''
                     then console_log LOG ''Audio chunk size'' rt2 else rt2))
      else Inr (console_log WARN
                  (''HeyGen WebSocket not connected, cannot send event: '' @ type event) rt))"

text \<open>
  The seven command operations: each generates an identifier, builds the envelope,
  hands it to \<open>send\<close> and returns the identifier.
\<close>

definition command :: "string \<Rightarrow> string option \<Rightarrow> HeyGenWebSocketClient \<Rightarrow> runtime
    \<Rightarrow> error + (string \<times> runtime)" where
  "command ty a c rt =
     (let (eventId, rt1) = generateEventId rt
      in case send \<lparr>type = ty, event_id = eventId, audio = a\<rparr> c rt1 of
           Inl e \<Rightarrow> Inl e
         | Inr rt2 \<Rightarrow> Inr (eventId, rt2))"

definition sendSpeak :: "string \<Rightarrow> HeyGenWebSocketClient \<Rightarrow> runtime \<Rightarrow> error + (string \<times> runtime)" where
  "sendSpeak a = command ''agent.speak'' (Some a)"

definition sendSpeakEnd :: "string option \<Rightarrow> HeyGenWebSocketClient \<Rightarrow> runtime
    \<Rightarrow> error + (string \<times> runtime)" where
  "sendSpeakEnd finalAudio = command ''agent.speak_end'' finalAudio"

definition sendInterrupt :: "HeyGenWebSocketClient \<Rightarrow> runtime \<Rightarrow> error + (string \<times> runtime)" where
  "sendInterrupt = command ''agent.interrupt'' None"

definition sendStartListening :: "HeyGenWebSocketClient \<Rightarrow> runtime \<Rightarrow> error + (string \<times> runtime)" where
  "sendStartListening = command ''agent.start_listening'' None"

definition sendStopListening :: "HeyGenWebSocketClient \<Rightarrow> runtime \<Rightarrow> error + (string \<times> runtime)" where
  "sendStopListening = command ''agent.stop_listening'' None"

definition sendAudioBufferClear :: "HeyGenWebSocketClient \<Rightarrow> runtime \<Rightarrow> error + (string \<times> runtime)" where
  "sendAudioBufferClear = command ''agent.audio_buffer_clear'' None"

definition sendKeepAlive :: "HeyGenWebSocketClient \<Rightarrow> runtime \<Rightarrow> error + (string \<times> runtime)" where
  "sendKeepAlive = command ''session.keep_alive'' None"

definition isConnectionOpen :: "HeyGenWebSocketClient \<Rightarrow> runtime \<Rightarrow> bool" where
  "isConnectionOpen c rt =
     (isConnected c \<and> (case ws c of None \<Rightarrow> False | Some h \<Rightarrow> readyStateOf rt h = OPEN))"

definition startHeartbeat :: "cstate \<Rightarrow> cstate" where
  "startHeartbeat s =
     (case s of (c, rt) \<Rightarrow>
        (c\<lparr>heartbeatInterval := Some (timers rt)\<rparr>,
         rt\<lparr>intervals := intervals rt @ [timers rt], timers := Suc (timers rt)\<rparr>))"

definition stopHeartbeat :: "cstate \<Rightarrow> cstate" where
  "stopHeartbeat s =
     (case s of (c, rt) \<Rightarrow>
        (case heartbeatInterval c of
           Some t \<Rightarrow> (c\<lparr>heartbeatInterval := None\<rparr>, rt\<lparr>intervals := removeAll t (intervals rt)\<rparr>)
         | None \<Rightarrow> (c, rt)))"

text \<open>
  \<open>connect\<close>: \<open>ctor_ok\<close> says whether \<^verbatim>\<open>new WebSocket(url, ...)\<close> returned a socket;
  when it throws, the promise is rejected and no field changes. The handlers
  registered on the new socket are \<open>onOpen\<close>, \<open>onClose\<close> and \<open>onError\<close> below. The
  \<^verbatim>\<open>message\<close> handler re-emits provider events (the bridge's listeners are
  \<open>onHeyGenEvent\<close>); it writes no field of the channel and is left out.
\<close>

definition connect :: "bool \<Rightarrow> cstate \<Rightarrow> cstate" where
  "connect ctor_ok s =
     (case s of (c, rt) \<Rightarrow>
        let rt1 = console_log LOG ''Connecting to HeyGen WebSocket'' rt
        in if ctor_ok
           then (c\<lparr>ws := Some (length (sockets rt1))\<rparr>,
                 rt1\<lparr>sockets := sockets rt1 @ [CONNECTING],
                     promises := promises rt1 @ [Pending False]\<rparr>)
           else (c, rt1))"

text \<open>The \<^verbatim>\<open>open\<close> handler of socket \<open>h\<close>; its last statement resolves the promise.\<close>

definition onOpen :: "nat \<Rightarrow> cstate \<Rightarrow> cstate" where
  "onOpen h s =
     (case s of (c, rt) \<Rightarrow>
        let rt1 = console_log LOG ''HeyGen WebSocket connected'' rt;
            c1 = c\<lparr>isConnected := True, reconnectAttempts := 0\<rparr>;
            (c2, rt2) = startHeartbeat (c1, rt1)
        in (c2, rt2\<lparr>emitted := emitted rt2 @ [''connected''],
                    promises := (promises rt2)[h := Settled]\<rparr>))"

text \<open>The \<^verbatim>\<open>close\<close> handler; \<open>code\<close> is the close code (the reason is only printed).\<close>

definition onClose :: "nat \<Rightarrow> cstate \<Rightarrow> cstate" where
  "onClose code s =
     (case s of (c, rt) \<Rightarrow>
        let rt1 = console_log LOG ''HeyGen WebSocket closed'' rt;
            c1 = c\<lparr>isConnected := False\<rparr>;
            (c2, rt2) = stopHeartbeat (c1, rt1);
            rt3 = rt2\<lparr>emitted := emitted rt2 @ [''disconnected'']\<rparr>
        in if code \<noteq> 1000 \<and> reconnectAttempts c2 < maxReconnectAttempts c2
           then (c2, rt3\<lparr>timeouts := timeouts rt3 @ [(Reconnect, reconnectDelay c2 * reconnectAttempts c2)]\<rparr>)
           else (c2, rt3))"

text \<open>
  The \<^verbatim>\<open>error\<close> handler of socket \<open>h\<close>: it prints, re-emits \<^verbatim>\<open>error\<close> on the channel
  and rejects the promise. An \<^verbatim>\<open>EventEmitter\<close> that emits \<^verbatim>\<open>error\<close> with no listener
  throws: the handler then ends there, nobody catches the exception, and the
  promise is not rejected. Otherwise a pending promise is rejected, and the
  rejection of a reconnection's promise is printed by its \<^verbatim>\<open>.catch(console.error)\<close>.
\<close>

definition onError :: "nat \<Rightarrow> cstate \<Rightarrow> cstate" where
  "onError h s =
     (case s of (c, rt) \<Rightarrow>
        let rt1 = console_log ERROR ''HeyGen WebSocket error'' rt
        in if \<not> errorListener c then (c, rt1\<lparr>uncaught := uncaught rt1 @ [UnhandledError]\<rparr>)
           else
             let rt2 = rt1\<lparr>emitted := emitted rt1 @ [''error'']\<rparr>
             in if h < length (promises rt2)
                then (case promises rt2 ! h of
                        Pending caught \<Rightarrow>
                          (c, (if caught then console_log ERROR ''connect() rejected'' rt2 else rt2)
                                \<lparr>promises := (promises rt2)[h := Settled]\<rparr>)
                      | Settled \<Rightarrow> (c, rt2))
                else (c, rt2))"

text \<open>
  The callback given to \<^verbatim>\<open>setTimeout\<close> by the \<^verbatim>\<open>close\<close> handler. It calls
  \<^verbatim>\<open>this.connect().catch(console.error)\<close>: a rejection of that promise is printed, at
  once when the constructor throws.
\<close>

definition reconnect :: "bool \<Rightarrow> cstate \<Rightarrow> cstate" where
  "reconnect ctor_ok s =
     (case s of (c, rt) \<Rightarrow>
        let c1 = c\<lparr>reconnectAttempts := reconnectAttempts c + 1\<rparr>;
            rt1 = console_log LOG ''Attempting to reconnect'' rt;
            (c2, rt2) = connect ctor_ok (c1, rt1)
        in if ctor_ok
           then (c2, rt2\<lparr>promises := (promises rt2)[length (sockets rt1) := Pending True]\<rparr>)
           else (c2, console_log ERROR ''connect() rejected'' rt2))"

definition disconnect :: "cstate \<Rightarrow> cstate" where
  "disconnect s =
     (case stopHeartbeat s of (c1, rt1) \<Rightarrow>
        (case ws c1 of
           Some h \<Rightarrow> (c1\<lparr>ws := None, isConnected := False\<rparr>, ws_close h rt1)
         | None \<Rightarrow> (c1\<lparr>isConnected := False\<rparr>, rt1)))"

section \<open>OpenAIHeyGenBridge (openai\_heygen\_bridge.ts)\<close>

text \<open>The fields of an incoming event that the bridge reads; all but the type are optional.\<close>

record OpenAIEvent =
  ev_type :: string
  ev_text :: "string option"
  ev_audio :: "string option"
  ev_delta :: "string option"
  ev_content :: "string option"
  ev_transcript :: "string option"

record OpenAIHeyGenBridge =
  heygenClient :: "HeyGenWebSocketClient option"
  currentSpeakEventId :: "string option"
  isListening :: bool

type_synonym bstate = "OpenAIHeyGenBridge \<times> runtime"

definition and_then :: "error + 'a \<Rightarrow> ('a \<Rightarrow> error + 'b) \<Rightarrow> error + 'b" where
  "and_then r f = (case r of Inl e \<Rightarrow> Inl e | Inr x \<Rightarrow> f x)"

text \<open>The listeners that \<open>setupHeyGenEventListeners\<close> registers on the channel.\<close>

definition onHeyGenEvent :: "string \<Rightarrow> bstate \<Rightarrow> bstate" where
  "onHeyGenEvent ty s =
     (case s of (b, rt) \<Rightarrow>
        if ty = ''agent.speak_started'' then (b, console_log LOG ''HeyGen agent started speaking'' rt)
        else if ty = ''agent.speak_ended''
          then (b\<lparr>currentSpeakEventId := None\<rparr>, console_log LOG ''HeyGen agent stopped speaking'' rt)
        else if ty = ''agent.speak_interrupted''
          then (b\<lparr>currentSpeakEventId := None\<rparr>, console_log LOG ''HeyGen agent speech interrupted'' rt)
        else if ty = ''agent.idle_started'' then (b, console_log LOG ''HeyGen agent entered idle state'' rt)
        else if ty = ''agent.idle_ended'' then (b, console_log LOG ''HeyGen agent left idle state'' rt)
        else (b, rt))"

definition handleOpenAIAudio :: "string \<Rightarrow> bstate \<Rightarrow> error + bstate" where
  "handleOpenAIAudio a s =
     (case s of (b, rt) \<Rightarrow>
        (case heygenClient b of
           None \<Rightarrow> Inr (b, rt)
         | Some c \<Rightarrow>
             let rt1 = console_log LOG ''Received OpenAI audio chunk'' rt
             in if \<not> truthy (currentSpeakEventId b)
                then and_then (sendSpeak a c rt1) (\<lambda>(eventId, rt2).
                       Inr (b\<lparr>currentSpeakEventId := Some eventId\<rparr>,
                            console_log LOG ''Started HeyGen speech with audio chunk'' rt2))
                else and_then (sendSpeak a c rt1) (\<lambda>(eventId, rt2).
                       Inr (b, console_log LOG ''Continued HeyGen speech with audio chunk'' rt2))))"

definition handleOpenAIText :: "string \<Rightarrow> bstate \<Rightarrow> error + bstate" where
  "handleOpenAIText t s =
     (case s of (b, rt) \<Rightarrow>
        (case heygenClient b of
           None \<Rightarrow> Inr (b, rt)
         | Some c \<Rightarrow> Inr (b, console_log LOG ''OpenAI text response'' rt)))"

definition handleOpenAIResponseDone :: "bstate \<Rightarrow> error + bstate" where
  "handleOpenAIResponseDone s =
     (case s of (b, rt) \<Rightarrow>
        (case heygenClient b of
           None \<Rightarrow> Inr (b, rt)
         | Some c \<Rightarrow>
             if truthy (currentSpeakEventId b)
             then and_then (sendSpeakEnd None c rt) (\<lambda>(eventId, rt1).
                    Inr (b\<lparr>currentSpeakEventId := None\<rparr>,
                         console_log LOG ''Ended HeyGen speech session'' rt1))
             else Inr (b, rt)))"

definition handleUserTextInput :: "string option \<Rightarrow> bstate \<Rightarrow> error + bstate" where
  "handleUserTextInput t s =
     (case s of (b, rt) \<Rightarrow>
        (case heygenClient b of
           None \<Rightarrow> Inr (b, rt)
         | Some c \<Rightarrow>
             let actualText = (if truthy t then the t else []);
                 rt1 = console_log LOG (''User input text: '' @ actualText) rt
             in and_then
                  (if \<not> isListening b
                   then and_then (sendStartListening c rt1) (\<lambda>(eventId, rt2).
                          Inr (b\<lparr>isListening := True\<rparr>,
                               console_log LOG ''Started HeyGen listening animation'' rt2))
                   else Inr (b, rt1))
                  (\<lambda>(b1, rt3). and_then (sendAudioBufferClear c rt3) (\<lambda>(eventId, rt4). Inr (b1, rt4)))))"

definition handleUserAudioInput :: "bstate \<Rightarrow> error + bstate" where
  "handleUserAudioInput s =
     (case s of (b, rt) \<Rightarrow>
        (case heygenClient b of
           None \<Rightarrow> Inr (b, rt)
         | Some c \<Rightarrow>
             let rt1 = console_log LOG ''User started speaking'' rt
             in and_then
                  (if truthy (currentSpeakEventId b)
                   then and_then (sendInterrupt c rt1) (\<lambda>(eventId, rt2).
                          Inr (b\<lparr>currentSpeakEventId := None\<rparr>, rt2))
                   else Inr (b, rt1))
                  (\<lambda>(b1, rt3).
                     if \<not> isListening b1
                     then and_then (sendStartListening c rt3) (\<lambda>(eventId, rt4).
                            Inr (b1\<lparr>isListening := True\<rparr>, rt4))
                     else Inr (b1, rt3))))"

definition handleUserAudioStop :: "bstate \<Rightarrow> error + bstate" where
  "handleUserAudioStop s =
     (case s of (b, rt) \<Rightarrow>
        (case heygenClient b of
           None \<Rightarrow> Inr (b, rt)
         | Some c \<Rightarrow>
             let rt1 = console_log LOG ''User stopped speaking'' rt
             in if isListening b
                then and_then (sendStopListening c rt1) (\<lambda>(eventId, rt2).
                       Inr (b\<lparr>isListening := False\<rparr>,
                            console_log LOG ''Stopped HeyGen listening animation'' rt2))
                else Inr (b, rt1)))"

text \<open>
  \<open>processOpenAIEvent\<close> is an \<^verbatim>\<open>async\<close> method: an exception inside it rejects the
  returned promise, which is the \<open>Inl\<close> result here.
\<close>

definition processOpenAIEvent :: "OpenAIEvent \<Rightarrow> bstate \<Rightarrow> error + bstate" where
  "processOpenAIEvent event s =
     (case s of (b, rt) \<Rightarrow>
        let rt0 = console_log LOG (''Received OpenAI event: '' @ ev_type event) rt
        in if heygenClient b = None \<or> \<not> isConnectionOpen (the (heygenClient b)) rt0
           then Inr (b, console_log LOG ''HeyGen client status''
                          (console_log WARN ''HeyGen client not available, skipping event processing'' rt0))
           else
             let rt1 = console_log LOG (''Processing OpenAI event: '' @ ev_type event) rt0
             in if ev_type event = ''response.audio'' \<or> ev_type event = ''response.audio.delta'' then
                  (let rt2 = console_log LOG ''Audio event details'' rt1;
                       audioData = js_or (ev_audio event) (ev_delta event)
                   in if truthy audioData then handleOpenAIAudio (the audioData) (b, rt2)
                      else Inr (b, console_log LOG ''No audio data found in audio event'' rt2))
                else if ev_type event = ''response.text'' \<or> ev_type event = ''response.text.delta'' then
                  (let rt2 = console_log LOG ''Text event details'' rt1;
                       textData = js_or (ev_text event) (ev_delta event)
                   in if truthy textData then handleOpenAIText (the textData) (b, rt2)
                      else Inr (b, rt2))
                else if ev_type event = ''response.audio_transcript.done''
                      \<or> ev_type event = ''response.text.done'' then
                  Inr (b, console_log LOG ''Final transcript/text'' rt1)
                else if ev_type event = ''response.done'' then
                  handleOpenAIResponseDone (b, console_log LOG ''Response completed'' rt1)
                else if ev_type event = ''input_text'' then
                  handleUserTextInput (js_or (ev_text event) (ev_content event))
                    (b, console_log LOG ''User input text'' rt1)
                else if ev_type event = ''input_audio'' then
                  handleUserAudioInput (b, console_log LOG ''User started speaking'' rt1)
                else if ev_type event = ''input_audio.stop'' then
                  handleUserAudioStop (b, console_log LOG ''User stopped speaking'' rt1)
                else if ev_type event = ''error'' then
                  Inr (b, console_log ERROR ''OpenAI error event'' rt1)
                else Inr (b, console_log LOG (''Unhandled OpenAI event type: '' @ ev_type event) rt1))"

text \<open>
  \<open>speakText\<close> throws without a client; otherwise it sends an empty chunk, keeps its
  identifier and schedules \<open>speakText_timeout\<close> one second later.
\<close>

definition speakText :: "string \<Rightarrow> bstate \<Rightarrow> error + bstate" where
  "speakText t s =
     (case s of (b, rt) \<Rightarrow>
        (case heygenClient b of
           None \<Rightarrow> Inl ClientNotAvailable
         | Some c \<Rightarrow>
             let rt1 = console_log LOG (''Would speak text if TTS was integrated: '' @ t) rt
             in and_then (sendSpeak [] c rt1) (\<lambda>(eventId, rt2).
                  Inr (b\<lparr>currentSpeakEventId := Some eventId\<rparr>,
                       rt2\<lparr>timeouts := timeouts rt2 @ [(SpeakEnd, 1000)]\<rparr>))))"

definition speakText_timeout :: "bstate \<Rightarrow> error + bstate" where
  "speakText_timeout s =
     (case s of (b, rt) \<Rightarrow>
        if truthy (currentSpeakEventId b)
        then and_then
               (case heygenClient b of
                  None \<Rightarrow> Inr rt
                | Some c \<Rightarrow> and_then (sendSpeakEnd None c rt) (\<lambda>(eventId, rt1). Inr rt1))
               (\<lambda>rt2. Inr (b\<lparr>currentSpeakEventId := None\<rparr>, rt2))
        else Inr (b, rt))"

definition interrupt :: "bstate \<Rightarrow> error + bstate" where
  "interrupt s =
     (case s of (b, rt) \<Rightarrow>
        (case heygenClient b of
           None \<Rightarrow> Inr (b, rt)
         | Some c \<Rightarrow>
             if truthy (currentSpeakEventId b)
             then and_then (sendInterrupt c rt) (\<lambda>(eventId, rt1).
                    Inr (b\<lparr>currentSpeakEventId := None\<rparr>,
                         console_log LOG ''Manually interrupted HeyGen speech'' rt1))
             else Inr (b, rt)))"

definition startListening :: "bstate \<Rightarrow> error + bstate" where
  "startListening s =
     (case s of (b, rt) \<Rightarrow>
        if heygenClient b = None \<or> isListening b then Inr (b, rt)
        else and_then (sendStartListening (the (heygenClient b)) rt) (\<lambda>(eventId, rt1).
               Inr (b\<lparr>isListening := True\<rparr>,
                    console_log LOG ''Manually started HeyGen listening'' rt1)))"

definition stopListening :: "bstate \<Rightarrow> error + bstate" where
  "stopListening s =
     (case s of (b, rt) \<Rightarrow>
        if heygenClient b = None \<or> \<not> isListening b then Inr (b, rt)
        else and_then (sendStopListening (the (heygenClient b)) rt) (\<lambda>(eventId, rt1).
               Inr (b\<lparr>isListening := False\<rparr>,
                    console_log LOG ''Manually stopped HeyGen listening'' rt1)))"


definition getState_isConnected :: "bstate \<Rightarrow> bool" where
  "getState_isConnected s =
     (case s of (b, rt) \<Rightarrow>
        (case heygenClient b of None \<Rightarrow> False | Some c \<Rightarrow> isConnectionOpen c rt))"

definition destroy :: "bstate \<Rightarrow> bstate" where
  "destroy s =
     (case s of (b, rt) \<Rightarrow>
        let b1 = b\<lparr>currentSpeakEventId := None, isListening := False\<rparr>
        in (case heygenClient b1 of
              Some c \<Rightarrow> (b1\<lparr>heygenClient := None\<rparr>, snd (disconnect (c, rt)))
            | None \<Rightarrow> (b1, rt)))"

section \<open>Runs of the channel\<close>

text \<open>
  What can happen to a channel: an explicit call of \<open>connect\<close>, the opening of a
  socket that is connecting, an error on a socket that is not yet closed, the
  closing of a socket (with its close code), an explicit call of \<open>disconnect\<close>, and
  the firing of a pending reconnection timer. The \<^verbatim>\<open>ws\<close> package reports the failure
  of a socket by an \<^verbatim>\<open>error\<close> event, with the socket already marked closing, followed
  by the \<^verbatim>\<open>close\<close> event: a socket that is still connecting reaches its \<^verbatim>\<open>close\<close>
  handler only after its \<^verbatim>\<open>error\<close> handler has returned. (For a socket that
  \<open>disconnect\<close> has put into closing the runs allow the \<^verbatim>\<open>close\<close> event with or
  without an \<^verbatim>\<open>error\<close> event before it.) An exception that nobody catches ends the
  process, and nothing happens after it. \<open>do_step\<close> is \<open>None\<close> when
  the runtime cannot deliver the step in that state.
\<close>

datatype step = Connect bool | Open nat | Error nat | Close nat nat | Disconnect | Fire nat bool

fun do_step :: "step \<Rightarrow> cstate \<Rightarrow> cstate option" where
  "do_step (Connect ok) (c, rt) =
     (if uncaught rt = [] then Some (connect ok (c, rt)) else None)"
| "do_step (Open h) (c, rt) =
     (if uncaught rt = [] \<and> h < length (sockets rt) \<and> sockets rt ! h = CONNECTING
      then Some (onOpen h (c, rt\<lparr>sockets := (sockets rt)[h := OPEN]\<rparr>)) else None)"
| "do_step (Error h) (c, rt) =
     (if uncaught rt = [] \<and> h < length (sockets rt) \<and> sockets rt ! h \<noteq> CLOSED
      then Some (onError h (c, rt\<lparr>sockets := (sockets rt)[h := CLOSING]\<rparr>)) else None)"
| "do_step (Close h code) (c, rt) =
     (if uncaught rt = [] \<and> h < length (sockets rt)
         \<and> (sockets rt ! h = OPEN \<or> sockets rt ! h = CLOSING)
      then Some (onClose code (c, rt\<lparr>sockets := (sockets rt)[h := CLOSED]\<rparr>)) else None)"
| "do_step Disconnect (c, rt) =
     (if uncaught rt = [] then Some (disconnect (c, rt)) else None)"
| "do_step (Fire i ok) (c, rt) =
     (if uncaught rt = [] \<and> i < length (timeouts rt) \<and> fst (timeouts rt ! i) = Reconnect
      then Some (reconnect ok (c, rt\<lparr>timeouts := take i (timeouts rt) @ drop (Suc i) (timeouts rt)\<rparr>))
      else None)"

fun exec :: "step list \<Rightarrow> cstate \<Rightarrow> cstate option" where
  "exec [] s = Some s"
| "exec (x # xs) s = (case do_step x s of None \<Rightarrow> None | Some s' \<Rightarrow> exec xs s')"

text \<open>The runtime before anything has happened, with the readings \<open>E\<close> of clock and random source.\<close>

definition boot :: "(nat \<Rightarrow> nat \<times> string) \<Rightarrow> runtime" where
  "boot E = \<lparr>sockets = [], promises = [], sent = [], intervals = [], timeouts = [], timers = 0,
     console = [], emitted = [], uncaught = [], entropy = E, calls = 0\<rparr>"

text \<open>
  Consecutive closures with no open in between: socket \<open>h\<close> closes, the reconnection
  it scheduled fires and creates socket \<open>n\<close>, which fails and closes in turn, and so on.
\<close>

fun closures :: "nat \<Rightarrow> nat \<Rightarrow> nat list \<Rightarrow> step list" where
  "closures h n [] = []"
| "closures h n [code] = [Close h code]"
| "closures h n (code # codes) = Close h code # Fire 0 True # Error n # closures n (Suc n) codes"

text \<open>A run is \<open>orderly\<close> when no socket opens while the channel is already flagged connected.\<close>

fun orderly :: "step list \<Rightarrow> cstate \<Rightarrow> bool" where
  "orderly [] s = True"
| "orderly (x # xs) s =
     ((case x of Open h \<Rightarrow> \<not> isConnected (fst s) | _ \<Rightarrow> True)
      \<and> (case do_step x s of None \<Rightarrow> True | Some s' \<Rightarrow> orderly xs s'))"

text \<open>A fixed clock and random source for the concrete runs below.\<close>

definition sample_entropy :: "nat \<Rightarrow> nat \<times> string" where
  "sample_entropy k = (1700000000000 + k, ''0.4fzyo82mvyr'')"

section \<open>Observations and concrete states used in the statements\<close>

text \<open>A random source that returns one half: \<^verbatim>\<open>(0.5).toString(36)\<close> is \<^verbatim>\<open>0.i\<close>.\<close>

definition half_entropy :: "nat \<Rightarrow> nat \<times> string" where
  "half_entropy k = (1700000000000 + k, ''0.i'')"

text \<open>The seven command operations of the channel, for any audio argument.\<close>

definition command_ops :: "(HeyGenWebSocketClient \<Rightarrow> runtime \<Rightarrow> error + (string \<times> runtime)) set" where
  "command_ops = {sendInterrupt, sendStartListening, sendStopListening, sendAudioBufferClear,
     sendKeepAlive} \<union> range sendSpeak \<union> range sendSpeakEnd"

text \<open>The identifier generated at the \<open>k\<close>-th reading of clock and random source.\<close>

definition event_id_at :: "runtime \<Rightarrow> nat \<Rightarrow> string" where
  "event_id_at rt k = formatEventId (fst (entropy rt k)) (snd (entropy rt k))"

text \<open>What a test observes: the types of the frames written, and the bridge state.\<close>

definition outbound :: "runtime \<Rightarrow> string list" where
  "outbound rt = map (type \<circ> snd) (sent rt)"

definition observe :: "error + bstate \<Rightarrow> error + (string option \<times> bool \<times> string list)" where
  "observe r = map_sum id (\<lambda>(b, rt). (currentSpeakEventId b, isListening b, outbound rt)) r"

text \<open>
  A channel whose first socket has opened (the state after \<open>connect\<close> and the
  \<^verbatim>\<open>open\<close> event, console left empty), and a bridge as its constructor leaves it.
\<close>

definition open_client :: HeyGenWebSocketClient where
  "open_client = \<lparr>ws = Some 0, reconnectAttempts = 0, maxReconnectAttempts = 5,
     reconnectDelay = 1000, isConnected = True, heartbeatInterval = Some 0,
     errorListener = False\<rparr>"

definition open_runtime :: runtime where
  "open_runtime = \<lparr>sockets = [OPEN], promises = [Settled], sent = [], intervals = [0],
     timeouts = [], timers = 1, console = [], emitted = [''connected''], uncaught = [],
     entropy = sample_entropy, calls = 0\<rparr>"

text \<open>The same channel after the application has registered a listener for \<^verbatim>\<open>error\<close>.\<close>

definition watched_client :: HeyGenWebSocketClient where
  "watched_client = open_client\<lparr>errorListener := True\<rparr>"

definition idle_bridge :: "HeyGenWebSocketClient option \<Rightarrow> OpenAIHeyGenBridge" where
  "idle_bridge client = \<lparr>heygenClient = client, currentSpeakEventId = None, isListening = False\<rparr>"



definition heartbeat_view :: "cstate \<Rightarrow> bool \<times> nat list" where
  "heartbeat_view s = (isConnected (fst s), intervals (snd s))"

definition reconnect_view :: "cstate \<Rightarrow> nat \<times> (callback \<times> nat) list" where
  "reconnect_view s = (reconnectAttempts (fst s), timeouts (snd s))"

text \<open>
  \<open>retrying k h\<close>: socket \<open>h\<close> is the only socket not yet closed, it is open or
  closing, no timer is pending, no exception is uncaught and the attempt counter is
  \<open>k\<close>; with \<open>k = 0\<close> this is the channel right after a successful open. \<open>dead\<close>:
  every socket is closed, nothing is pending and the process is alive.
\<close>

definition retrying :: "nat \<Rightarrow> nat \<Rightarrow> cstate \<Rightarrow> bool" where
  "retrying k h s =
     (case s of (c, rt) \<Rightarrow>
        h < length (sockets rt) \<and> (sockets rt ! h = OPEN \<or> sockets rt ! h = CLOSING)
        \<and> (\<forall>j < length (sockets rt). j \<noteq> h \<longrightarrow> sockets rt ! j = CLOSED)
        \<and> timeouts rt = [] \<and> uncaught rt = [] \<and> reconnectAttempts c = k \<and> maxReconnectAttempts c = 5
        \<and> reconnectDelay c = 1000)"

definition dead :: "cstate \<Rightarrow> bool" where
  "dead s = (case s of (c, rt) \<Rightarrow>
     \<not> isConnected c \<and> timeouts rt = [] \<and> uncaught rt = []
     \<and> list_all (\<lambda>st. st = CLOSED) (sockets rt))"

text \<open>An event of the given type with no payload field set.\<close>

definition event :: "string \<Rightarrow> OpenAIEvent" where
  "event ty = \<lparr>ev_type = ty, ev_text = None, ev_audio = None, ev_delta = None,
     ev_content = None, ev_transcript = None\<rparr>"

text \<open>A payload-free command frame written to socket \<open>h\<close>.\<close>

definition frame :: "nat \<Rightarrow> string \<Rightarrow> string \<Rightarrow> nat \<times> HeyGenWebSocketEvent" where
  "frame h ty i = (h, \<lparr>type = ty, event_id = i, audio = None\<rparr>)"


text \<open>
  Two invariants of the heartbeat: the handle \<open>heartbeatInterval\<close> is set exactly when
  the channel is flagged connected, and the running interval timers are exactly that handle.
\<close>

definition handle_inv :: "cstate \<Rightarrow> bool" where
  "handle_inv s = ((heartbeatInterval (fst s) \<noteq> None) = isConnected (fst s))"

definition timer_inv :: "cstate \<Rightarrow> bool" where
  "timer_inv s = (intervals (snd s) = (case heartbeatInterval (fst s) of None \<Rightarrow> [] | Some t \<Rightarrow> [t]))"

section \<open>Auxiliary facts\<close>

lemma dec_digits: "list_all is_digit (dec n)"
proof (induction n rule: dec.induct)
  case (1 n)
  show ?case
  proof (cases "n < 10")
    case True
    then have "n \<in> {0,1,2,3,4,5,6,7,8,9}" by auto
    then show ?thesis by (subst dec.simps) (auto simp: is_digit_def digit_char_def)
  next
    case False
    have "n mod 10 \<in> {0,1,2,3,4,5,6,7,8,9}" by (simp; presburger)
    then have "is_digit (digit_char (n mod 10))" by (auto simp: is_digit_def digit_char_def)
    with 1 False show ?thesis by (subst dec.simps) simp
  qed
qed

lemma substring_2_9: "substring r 2 9 = take 7 (drop 2 r)"
  by (auto simp: substring_def Let_def min_def max_def)

lemma formatEventId_truthy: "truthy (Some (formatEventId now r))"
  by (simp add: truthy_def formatEventId_def)

lemma command_ops_command: "op \<in> command_ops \<Longrightarrow> \<exists>ty a. op = command ty a"
  unfolding command_ops_def sendSpeak_def sendSpeakEnd_def sendInterrupt_def sendStartListening_def
    sendStopListening_def sendAudioBufferClear_def sendKeepAlive_def
  by auto

lemma command_returns:
  "command ty a c rt = Inr (i, rt') \<Longrightarrow> i = event_id_at rt (calls rt)"
  by (auto simp: command_def generateEventId_def event_id_at_def split: sum.splits)

lemma command_dropped:
  assumes "\<not> (ws c \<noteq> None \<and> isConnected c)"
  shows "command ty a c rt = Inr (event_id_at rt (calls rt),
           rt\<lparr>calls := Suc (calls rt),
              console := console rt @ [(WARN, ''HeyGen WebSocket not connected, cannot send event: '' @ ty)]\<rparr>)"
  using assms by (auto simp: command_def generateEventId_def event_id_at_def send_def console_log_def)

lemma isConnectionOpen_console_log [simp]:
  "isConnectionOpen c (console_log l m rt) = isConnectionOpen c rt"
  by (simp add: isConnectionOpen_def console_log_def readyStateOf_def split: option.splits)

lemma isConnectionOpen_console [simp]:
  "isConnectionOpen c (rt\<lparr>console := x\<rparr>) = isConnectionOpen c rt"
  by (simp add: isConnectionOpen_def readyStateOf_def split: option.splits)

lemma console_log_fields [simp]:
  "sent (console_log l m rt) = sent rt"
  "sockets (console_log l m rt) = sockets rt"
  "entropy (console_log l m rt) = entropy rt"
  "calls (console_log l m rt) = calls rt"
  "timeouts (console_log l m rt) = timeouts rt"
  "intervals (console_log l m rt) = intervals rt"
  "timers (console_log l m rt) = timers rt"
  "console (console_log l m rt) = console rt @ [(l, m)]"
  by (simp_all add: console_log_def)

lemma event_id_at_console_log [simp]: "event_id_at (console_log l m rt) k = event_id_at rt k"
  by (simp add: event_id_at_def)

lemma command_open:
  assumes "isConnectionOpen c rt"
  shows "\<exists>rt'. command ty a c rt = Inr (event_id_at rt (calls rt), rt')
           \<and> sent rt' = sent rt @ [(the (ws c), \<lparr>type = ty, event_id = event_id_at rt (calls rt), audio = a\<rparr>)]
           \<and> sockets rt' = sockets rt \<and> entropy rt' = entropy rt \<and> calls rt' = Suc (calls rt)
           \<and> timeouts rt' = timeouts rt \<and> intervals rt' = intervals rt"
  using assms
  by (auto simp: command_def generateEventId_def event_id_at_def send_def console_log_def ws_send_def
      Let_def readyStateOf_def isConnectionOpen_def split: if_splits option.splits)

lemma isConnectionOpen_sockets:
  "sockets rt' = sockets rt \<Longrightarrow> isConnectionOpen c rt' = isConnectionOpen c rt"
  by (cases "ws c") (simp_all add: isConnectionOpen_def readyStateOf_def)

lemma event_id_at_entropy: "entropy rt' = entropy rt \<Longrightarrow> event_id_at rt' k = event_id_at rt k"
  by (simp add: event_id_at_def)

section \<open>Event identifiers\<close>

text \<open>
  C4 (as amended). Every identifier returned by one of the seven command operations
  is the decimal text of the clock reading, an underscore, and a suffix of base-36
  digits cut from the text of the random number: at most seven of them, and exactly
  \<open>min 7 (length r - 2)\<close>, so seven whenever that text has at least seven digits
  after \<^verbatim>\<open>0.\<close>.
\<close>

theorem event_id_format:
  assumes "op \<in> command_ops" and "op c rt = Inr (i, rt')"
    and "entropy rt (calls rt) = (now, r)" and "random36 r"
  shows "\<exists>suffix. i = dec now @ ''_'' @ suffix \<and> list_all is_digit (dec now)
           \<and> list_all is_base36 suffix \<and> length suffix = min 7 (length r - 2)"
proof -
  from assms(1) obtain ty a where "op = command ty a" using command_ops_command by blast
  with assms(2,3) have i: "i = formatEventId now r"
    using command_returns by (fastforce simp: event_id_at_def)
  have "list_all is_base36 (take 7 (drop 2 r))"
    using assms(4) by (auto simp: random36_def list_all_iff dest: in_set_takeD)
  then show ?thesis
    using i by (simp add: formatEventId_def substring_2_9 dec_digits)
qed

text \<open>A typical reading of clock and random source.\<close>

theorem event_id_format_witness:
  "sendKeepAlive \<in> command_ops \<and> random36 ''0.4fzyo82mvyr''
   \<and> (\<exists>suffix. ''1700000000000_4fzyo82'' = dec 1700000000000 @ ''_'' @ suffix
         \<and> list_all is_digit (dec 1700000000000) \<and> list_all is_base36 suffix
         \<and> length suffix = min 7 (length ''0.4fzyo82mvyr'' - 2))"
proof -
  have ops: "sendKeepAlive \<in> command_ops" by (simp add: command_ops_def)
  have rnd: "random36 ''0.4fzyo82mvyr''" by (simp add: random36_def is_base36_def)
  have ent: "entropy (boot sample_entropy) (calls (boot sample_entropy)) = (1700000000000, ''0.4fzyo82mvyr'')"
    by (simp add: boot_def sample_entropy_def)
  obtain rt' where run: "sendKeepAlive new_client (boot sample_entropy) = Inr (''1700000000000_4fzyo82'', rt')"
    by (simp add: sendKeepAlive_def command_def generateEventId_def send_def new_client_def boot_def
        sample_entropy_def console_log_def formatEventId_def substring_def digit_char_def dec.simps)
  show ?thesis using ops rnd event_id_format [OF ops run ent rnd] by simp
qed

text \<open>
  C4 as stated fails: when \<^verbatim>\<open>Math.random()\<close> returns one half, its base-36 text is
  \<^verbatim>\<open>0.i\<close> and the suffix of the identifier has one character, not seven.
\<close>

theorem short_suffix_counterexample:
  "random36 ''0.i''
   \<and> map_sum id fst (sendKeepAlive new_client (boot half_entropy)) = Inr ''1700000000000_i''
   \<and> length (substring ''0.i'' 2 9) = 1"
  by (simp add: random36_def is_base36_def sendKeepAlive_def command_def generateEventId_def send_def
      new_client_def boot_def half_entropy_def console_log_def formatEventId_def substring_def
      digit_char_def dec.simps)

section \<open>Commands while the channel is not connected\<close>

text \<open>
  C6. When the test \<^verbatim>\<open>this.ws && this.isConnected\<close> of \<open>send\<close> fails, each of
  the seven command operations returns normally with the freshly generated
  identifier, writes no frame, leaves every socket alone and adds one warning to
  the console.
\<close>

theorem dropped_command:
  assumes "op \<in> command_ops" and "\<not> (ws c \<noteq> None \<and> isConnected c)"
  shows "\<exists>rt' ty. op c rt = Inr (event_id_at rt (calls rt), rt')
           \<and> sent rt' = sent rt \<and> sockets rt' = sockets rt
           \<and> console rt' = console rt
                @ [(WARN, ''HeyGen WebSocket not connected, cannot send event: '' @ ty)]"
proof -
  from assms(1) obtain ty a where "op = command ty a" using command_ops_command by blast
  then show ?thesis using command_dropped [OF assms(2), of ty a rt] by auto
qed

text \<open>\<open>sendSpeak\<close> on a channel that never connected.\<close>

theorem dropped_command_witness:
  "sendSpeak ''UklGRg=='' \<in> command_ops \<and> \<not> (ws new_client \<noteq> None \<and> isConnected new_client)
   \<and> (\<exists>rt' ty. sendSpeak ''UklGRg=='' new_client (boot sample_entropy)
                 = Inr (''1700000000000_4fzyo82'', rt')
        \<and> sent rt' = [] \<and> sockets rt' = []
        \<and> console rt' = [(WARN, ''HeyGen WebSocket not connected, cannot send event: '' @ ty)])"
proof -
  have ops: "sendSpeak ''UklGRg=='' \<in> command_ops" by (simp add: command_ops_def)
  have off: "\<not> (ws new_client \<noteq> None \<and> isConnected new_client)" by (simp add: new_client_def)
  have i: "event_id_at (boot sample_entropy) (calls (boot sample_entropy)) = ''1700000000000_4fzyo82''"
    by (simp add: event_id_at_def boot_def sample_entropy_def formatEventId_def substring_def
        digit_char_def dec.simps)
  have b: "sent (boot sample_entropy) = []" "sockets (boot sample_entropy) = []"
    "console (boot sample_entropy) = []" by (simp_all add: boot_def)
  show ?thesis using ops off dropped_command [OF ops off, of "boot sample_entropy"]
    unfolding i b by simp
qed

section \<open>Audio chunks and the current speech identifier\<close>





section \<open>User text input\<close>

lemma input_text_step:
  assumes c: "heygenClient b = Some c" and o: "isConnectionOpen c rt"
    and t: "ev_type e = ''input_text''"
  shows "\<exists>rt'. processOpenAIEvent e (b, rt) = Inr (b\<lparr>isListening := True\<rparr>, rt')
           \<and> sent rt' = sent rt @
                (if isListening b
                 then [frame (the (ws c)) ''agent.audio_buffer_clear'' (event_id_at rt (calls rt))]
                 else [frame (the (ws c)) ''agent.start_listening'' (event_id_at rt (calls rt)),
                       frame (the (ws c)) ''agent.audio_buffer_clear'' (event_id_at rt (Suc (calls rt)))])
           \<and> sockets rt' = sockets rt \<and> entropy rt' = entropy rt"
proof -
  define p where "p = js_or (ev_text e) (ev_content e)"
  define rt1 where "rt1 = console_log LOG (''User input text: '' @ (if truthy p then the p else []))
    (console_log LOG ''User input text''
      (console_log LOG (''Processing OpenAI event: '' @ ev_type e)
        (console_log LOG (''Received OpenAI event: '' @ ev_type e) rt)))"
  have o1: "isConnectionOpen c rt1" by (simp add: rt1_def o)
  have e1: "processOpenAIEvent e (b, rt) = handleUserTextInput p (b, console_log LOG ''User input text''
      (console_log LOG (''Processing OpenAI event: '' @ ev_type e)
        (console_log LOG (''Received OpenAI event: '' @ ev_type e) rt)))"
    using t c o by (simp add: processOpenAIEvent_def Let_def p_def)
  show ?thesis
  proof (cases "isListening b")
    case True
    from command_open [OF o1, of "''agent.audio_buffer_clear''" None] obtain rt2 where
      r: "sendAudioBufferClear c rt1 = Inr (event_id_at rt (calls rt), rt2)"
      and f: "sent rt2 = sent rt @ [frame (the (ws c)) ''agent.audio_buffer_clear'' (event_id_at rt (calls rt))]"
        "sockets rt2 = sockets rt" "entropy rt2 = entropy rt"
      by (auto simp: sendAudioBufferClear_def rt1_def frame_def)
    have "handleUserTextInput p (b, console_log LOG ''User input text''
      (console_log LOG (''Processing OpenAI event: '' @ ev_type e)
        (console_log LOG (''Received OpenAI event: '' @ ev_type e) rt))) = Inr (b, rt2)"
      using r c True by (simp add: handleUserTextInput_def Let_def rt1_def and_then_def)
    moreover have "b\<lparr>isListening := True\<rparr> = b" using True by simp
    ultimately show ?thesis using f True e1 by auto
  next
    case False
    from command_open [OF o1, of "''agent.start_listening''" None] obtain rt2 where
      r: "sendStartListening c rt1 = Inr (event_id_at rt (calls rt), rt2)"
      and f: "sent rt2 = sent rt @ [frame (the (ws c)) ''agent.start_listening'' (event_id_at rt (calls rt))]"
        "sockets rt2 = sockets rt" "entropy rt2 = entropy rt" "calls rt2 = Suc (calls rt)"
      by (auto simp: sendStartListening_def rt1_def frame_def)
    define rt3 where "rt3 = console_log LOG ''Started HeyGen listening animation'' rt2"
    have o3: "isConnectionOpen c rt3"
      using o isConnectionOpen_sockets [OF f(2), of c] by (simp add: rt3_def)
    have i3: "event_id_at rt3 (calls rt3) = event_id_at rt (Suc (calls rt))"
      using f(3,4) by (simp add: rt3_def event_id_at_def)
    from command_open [OF o3, of "''agent.audio_buffer_clear''" None] obtain rt4 where
      r4: "sendAudioBufferClear c rt3 = Inr (event_id_at rt (Suc (calls rt)), rt4)"
      and f4: "sent rt4 = sent rt3 @ [frame (the (ws c)) ''agent.audio_buffer_clear'' (event_id_at rt (Suc (calls rt)))]"
        "sockets rt4 = sockets rt3" "entropy rt4 = entropy rt3"
      unfolding i3 by (auto simp: sendAudioBufferClear_def frame_def)
    have "handleUserTextInput p (b, console_log LOG ''User input text''
      (console_log LOG (''Processing OpenAI event: '' @ ev_type e)
        (console_log LOG (''Received OpenAI event: '' @ ev_type e) rt)))
        = Inr (b\<lparr>isListening := True\<rparr>, rt4)"
      using r r4 c False by (simp add: handleUserTextInput_def Let_def rt1_def rt3_def and_then_def)
    moreover have "sent rt4 = sent rt @ [frame (the (ws c)) ''agent.start_listening'' (event_id_at rt (calls rt)),
        frame (the (ws c)) ''agent.audio_buffer_clear'' (event_id_at rt (Suc (calls rt)))]"
      using f f4 by (simp add: rt3_def)
    moreover have "sockets rt4 = sockets rt" "entropy rt4 = entropy rt"
      using f f4 by (simp_all add: rt3_def)
    ultimately show ?thesis using False e1 by auto
  qed
qed

text \<open>
  C7. With an attached, open channel and \<open>isListening\<close> false, the event
  \<^verbatim>\<open>{type: "input_text", text: "hello"}\<close> writes exactly two frames, first
  \<^verbatim>\<open>agent.start_listening\<close> and then \<^verbatim>\<open>agent.audio_buffer_clear\<close>, and leaves
  \<open>isListening\<close> true.
\<close>

theorem scenario_A:
  assumes "heygenClient b = Some c" and "isConnectionOpen c rt" and "\<not> isListening b"
  shows "\<exists>b' rt'. processOpenAIEvent ((event ''input_text'')\<lparr>ev_text := Some ''hello''\<rparr>) (b, rt)
                    = Inr (b', rt')
           \<and> isListening b' \<and> currentSpeakEventId b' = currentSpeakEventId b
           \<and> sent rt' = sent rt @
                [frame (the (ws c)) ''agent.start_listening'' (event_id_at rt (calls rt)),
                 frame (the (ws c)) ''agent.audio_buffer_clear'' (event_id_at rt (Suc (calls rt)))]"
proof -
  have "ev_type ((event ''input_text'')\<lparr>ev_text := Some ''hello''\<rparr>) = ''input_text''"
    by (simp add: event_def)
  from input_text_step [OF assms(1,2) this] assms(3) show ?thesis by auto
qed

section \<open>The concrete connected channel\<close>

lemma open_state_reached:
  "map_option (\<lambda>(c, rt). (c, rt\<lparr>console := []\<rparr>)) (exec [Connect True, Open 0] (new_client, boot sample_entropy))
     = Some (open_client, open_runtime)"
  by (simp add: connect_def onOpen_def startHeartbeat_def console_log_def new_client_def boot_def
      open_client_def open_runtime_def Let_def)

lemma open_state_facts:
  "isConnectionOpen open_client open_runtime" "the (ws open_client) = 0"
  "calls open_runtime = 0" "sent open_runtime = []"
  by (simp_all add: isConnectionOpen_def open_client_def open_runtime_def readyStateOf_def)

lemma sample_ids:
  "event_id_at open_runtime 0 = ''1700000000000_4fzyo82''"
  "event_id_at open_runtime (Suc 0) = ''1700000000001_4fzyo82''"
  by (simp_all add: event_id_at_def open_runtime_def sample_entropy_def formatEventId_def
      substring_def digit_char_def dec.simps)

text \<open>Scenario A on the concrete connected channel.\<close>

theorem scenario_A_witness:
  "heygenClient (idle_bridge (Some open_client)) = Some open_client
   \<and> isConnectionOpen open_client open_runtime
   \<and> \<not> isListening (idle_bridge (Some open_client))
   \<and> (\<exists>b' rt'. processOpenAIEvent ((event ''input_text'')\<lparr>ev_text := Some ''hello''\<rparr>)
                    (idle_bridge (Some open_client), open_runtime) = Inr (b', rt')
         \<and> isListening b' \<and> currentSpeakEventId b' = None
         \<and> sent rt' = [frame 0 ''agent.start_listening'' ''1700000000000_4fzyo82'',
                        frame 0 ''agent.audio_buffer_clear'' ''1700000000001_4fzyo82''])"
proof -
  have h1: "heygenClient (idle_bridge (Some open_client)) = Some open_client"
    and h3: "\<not> isListening (idle_bridge (Some open_client))"
    and n: "currentSpeakEventId (idle_bridge (Some open_client)) = None"
    by (simp_all add: idle_bridge_def)
  show ?thesis
    using h1 h3 open_state_facts(1) scenario_A [OF h1 open_state_facts(1) h3]
    unfolding open_state_facts(2-4) sample_ids n by simp
qed


section \<open>Events without payload\<close>

text \<open>
  C9 as stated fails: an \<^verbatim>\<open>input_text\<close> event with neither \<open>text\<close> nor \<open>content\<close> is
  not a no-op. \<open>handleUserTextInput\<close> replaces the missing text by the empty string and
  goes on: two commands are written and \<open>isListening\<close> becomes true.
\<close>

theorem missing_payload_counterexample:
  "observe (processOpenAIEvent (event ''input_text'') (idle_bridge (Some open_client), open_runtime))
     = Inr (None, True, [''agent.start_listening'', ''agent.audio_buffer_clear''])"
proof -
  have h1: "heygenClient (idle_bridge (Some open_client)) = Some open_client"
    and t: "ev_type (event ''input_text'') = ''input_text''"
    by (simp_all add: idle_bridge_def event_def)
  from input_text_step [OF h1 open_state_facts(1) t]
  show ?thesis by (auto simp: observe_def outbound_def idle_bridge_def open_state_facts frame_def)
qed

text \<open>
  C9 (as amended). On an attached, open channel an audio-chunk event with neither
  \<open>audio\<close> nor \<open>delta\<close>, and a text-chunk event with neither \<open>text\<close> nor \<open>delta\<close>, is a
  no-op: it is logged, no frame is written, the bridge is unchanged and nothing is
  thrown. An \<^verbatim>\<open>input_text\<close> event without payload is processed like every other
  \<^verbatim>\<open>input_text\<close> event: start-listening when not yet listening, then buffer-clear.
\<close>

theorem missing_payload:
  assumes "heygenClient b = Some c" and "isConnectionOpen c rt"
  shows "((ev_type e = ''response.audio'' \<or> ev_type e = ''response.audio.delta'')
            \<and> \<not> truthy (js_or (ev_audio e) (ev_delta e)) \<longrightarrow>
          processOpenAIEvent e (b, rt) = Inr (b, rt\<lparr>console := console rt @
            [(LOG, ''Received OpenAI event: '' @ ev_type e),
             (LOG, ''Processing OpenAI event: '' @ ev_type e),
             (LOG, ''Audio event details''),
             (LOG, ''No audio data found in audio event'')]\<rparr>))
       \<and> ((ev_type e = ''response.text'' \<or> ev_type e = ''response.text.delta'')
            \<and> \<not> truthy (js_or (ev_text e) (ev_delta e)) \<longrightarrow>
          processOpenAIEvent e (b, rt) = Inr (b, rt\<lparr>console := console rt @
            [(LOG, ''Received OpenAI event: '' @ ev_type e),
             (LOG, ''Processing OpenAI event: '' @ ev_type e),
             (LOG, ''Text event details'')]\<rparr>))
       \<and> (ev_type e = ''input_text'' \<and> \<not> truthy (js_or (ev_text e) (ev_content e)) \<longrightarrow>
          (\<exists>rt'. processOpenAIEvent e (b, rt) = Inr (b\<lparr>isListening := True\<rparr>, rt')
             \<and> sent rt' = sent rt @
                (if isListening b
                 then [frame (the (ws c)) ''agent.audio_buffer_clear'' (event_id_at rt (calls rt))]
                 else [frame (the (ws c)) ''agent.start_listening'' (event_id_at rt (calls rt)),
                       frame (the (ws c)) ''agent.audio_buffer_clear''
                         (event_id_at rt (Suc (calls rt)))])))"
proof (intro conjI impI)
  assume a: "(ev_type e = ''response.audio'' \<or> ev_type e = ''response.audio.delta'')
    \<and> \<not> truthy (js_or (ev_audio e) (ev_delta e))"
  then show "processOpenAIEvent e (b, rt) = Inr (b, rt\<lparr>console := console rt @
            [(LOG, ''Received OpenAI event: '' @ ev_type e),
             (LOG, ''Processing OpenAI event: '' @ ev_type e),
             (LOG, ''Audio event details''),
             (LOG, ''No audio data found in audio event'')]\<rparr>)"
    using assms by (auto simp: processOpenAIEvent_def Let_def console_log_def)
next
  assume a: "(ev_type e = ''response.text'' \<or> ev_type e = ''response.text.delta'')
    \<and> \<not> truthy (js_or (ev_text e) (ev_delta e))"
  then show "processOpenAIEvent e (b, rt) = Inr (b, rt\<lparr>console := console rt @
            [(LOG, ''Received OpenAI event: '' @ ev_type e),
             (LOG, ''Processing OpenAI event: '' @ ev_type e),
             (LOG, ''Text event details'')]\<rparr>)"
    using assms by (auto simp: processOpenAIEvent_def Let_def console_log_def)
next
  assume a: "ev_type e = ''input_text'' \<and> \<not> truthy (js_or (ev_text e) (ev_content e))"
  then have "ev_type e = ''input_text''" by simp
  from input_text_step [OF assms this]
  show "\<exists>rt'. processOpenAIEvent e (b, rt) = Inr (b\<lparr>isListening := True\<rparr>, rt')
             \<and> sent rt' = sent rt @
                (if isListening b
                 then [frame (the (ws c)) ''agent.audio_buffer_clear'' (event_id_at rt (calls rt))]
                 else [frame (the (ws c)) ''agent.start_listening'' (event_id_at rt (calls rt)),
                       frame (the (ws c)) ''agent.audio_buffer_clear''
                         (event_id_at rt (Suc (calls rt)))])"
    by blast
qed

text \<open>The three cases on the concrete connected channel.\<close>

theorem missing_payload_witness:
  "heygenClient (idle_bridge (Some open_client)) = Some open_client
   \<and> isConnectionOpen open_client open_runtime
   \<and> processOpenAIEvent (event ''response.audio'') (idle_bridge (Some open_client), open_runtime)
       = Inr (idle_bridge (Some open_client), open_runtime\<lparr>console :=
            [(LOG, ''Received OpenAI event: response.audio''),
             (LOG, ''Processing OpenAI event: response.audio''),
             (LOG, ''Audio event details''),
             (LOG, ''No audio data found in audio event'')]\<rparr>)
   \<and> processOpenAIEvent (event ''response.text.delta'') (idle_bridge (Some open_client), open_runtime)
       = Inr (idle_bridge (Some open_client), open_runtime\<lparr>console :=
            [(LOG, ''Received OpenAI event: response.text.delta''),
             (LOG, ''Processing OpenAI event: response.text.delta''),
             (LOG, ''Text event details'')]\<rparr>)
   \<and> (\<exists>rt'. processOpenAIEvent (event ''input_text'') (idle_bridge (Some open_client), open_runtime)
                = Inr ((idle_bridge (Some open_client))\<lparr>isListening := True\<rparr>, rt')
         \<and> sent rt' = [frame 0 ''agent.start_listening'' ''1700000000000_4fzyo82'',
                        frame 0 ''agent.audio_buffer_clear'' ''1700000000001_4fzyo82''])"
proof -
  have h1: "heygenClient (idle_bridge (Some open_client)) = Some open_client"
    and l: "\<not> isListening (idle_bridge (Some open_client))"
    by (simp_all add: idle_bridge_def)
  have e: "ev_type (event ty) = ty" "js_or (ev_audio (event ty)) (ev_delta (event ty)) = None"
    "js_or (ev_text (event ty)) (ev_delta (event ty)) = None"
    "js_or (ev_text (event ty)) (ev_content (event ty)) = None" for ty
    by (simp_all add: event_def js_or_def truthy_def)
  have c: "console open_runtime = []" by (simp add: open_runtime_def)
  show ?thesis
    using h1 open_state_facts(1)
      missing_payload [OF h1 open_state_facts(1), of "event ''response.audio''"]
      missing_payload [OF h1 open_state_facts(1), of "event ''response.text.delta''"]
      missing_payload [OF h1 open_state_facts(1), of "event ''input_text''"]
    unfolding e open_state_facts(2-4) sample_ids c
    by (simp add: truthy_def l)
qed

section \<open>Control operations without a connected channel\<close>

text \<open>
  C3 as stated fails twice: \<open>speakText\<close> on a bridge with no channel throws, and
  \<open>startListening\<close> on a bridge whose channel never connected sets \<open>isListening\<close>
  although no frame was written.
\<close>

theorem control_counterexample:
  "speakText ''hello'' (idle_bridge None, boot sample_entropy) = Inl ClientNotAvailable
   \<and> observe (startListening (idle_bridge (Some new_client), boot sample_entropy))
       = Inr (None, True, [])"
  by (simp add: speakText_def startListening_def idle_bridge_def observe_def outbound_def
      sendStartListening_def command_def generateEventId_def send_def new_client_def boot_def
      console_log_def and_then_def)

text \<open>
  C3 (as amended). Without a channel, \<open>interrupt\<close>, \<open>startListening\<close> and
  \<open>stopListening\<close> return with nothing changed, and \<open>speakText\<close> throws. With a channel
  that is not connected (the test of \<open>send\<close> fails) none of the four throws and none
  writes a frame; the bridge records the command as issued: \<open>speakText\<close> keeps the
  generated identifier, \<open>startListening\<close> sets and \<open>stopListening\<close> clears \<open>isListening\<close>,
  \<open>interrupt\<close> clears a speech in flight.
\<close>

theorem control_when_disconnected:
  "(heygenClient b = None \<longrightarrow>
      speakText t (b, rt) = Inl ClientNotAvailable
      \<and> interrupt (b, rt) = Inr (b, rt)
      \<and> startListening (b, rt) = Inr (b, rt)
      \<and> stopListening (b, rt) = Inr (b, rt))
   \<and> (heygenClient b = Some c \<and> \<not> (ws c \<noteq> None \<and> isConnected c) \<longrightarrow>
      (\<exists>rt'. speakText t (b, rt)
                = Inr (b\<lparr>currentSpeakEventId := Some (event_id_at rt (calls rt))\<rparr>, rt')
          \<and> sent rt' = sent rt)
      \<and> (\<exists>rt'. interrupt (b, rt)
                = Inr (if truthy (currentSpeakEventId b) then b\<lparr>currentSpeakEventId := None\<rparr> else b, rt')
          \<and> sent rt' = sent rt)
      \<and> (\<exists>rt'. startListening (b, rt) = Inr (b\<lparr>isListening := True\<rparr>, rt') \<and> sent rt' = sent rt)
      \<and> (\<exists>rt'. stopListening (b, rt) = Inr (b\<lparr>isListening := False\<rparr>, rt') \<and> sent rt' = sent rt))"
proof (intro conjI impI)
  assume n: "heygenClient b = None"
  show "speakText t (b, rt) = Inl ClientNotAvailable" using n by (simp add: speakText_def)
  show "interrupt (b, rt) = Inr (b, rt)" using n by (simp add: interrupt_def)
  show "startListening (b, rt) = Inr (b, rt)" using n by (simp add: startListening_def)
  show "stopListening (b, rt) = Inr (b, rt)" using n by (simp add: stopListening_def)
next
  assume a: "heygenClient b = Some c \<and> \<not> (ws c \<noteq> None \<and> isConnected c)"
  then have c: "heygenClient b = Some c" and d: "\<not> (ws c \<noteq> None \<and> isConnected c)" by simp_all
  note drop = command_dropped [OF d]
  show "\<exists>rt'. speakText t (b, rt)
                = Inr (b\<lparr>currentSpeakEventId := Some (event_id_at rt (calls rt))\<rparr>, rt')
          \<and> sent rt' = sent rt"
    using c by (simp add: speakText_def sendSpeak_def drop and_then_def Let_def)
  show "\<exists>rt'. interrupt (b, rt)
                = Inr (if truthy (currentSpeakEventId b) then b\<lparr>currentSpeakEventId := None\<rparr> else b, rt')
          \<and> sent rt' = sent rt"
    using c by (simp add: interrupt_def sendInterrupt_def drop and_then_def)
  show "\<exists>rt'. startListening (b, rt) = Inr (b\<lparr>isListening := True\<rparr>, rt') \<and> sent rt' = sent rt"
    using c by (cases "isListening b") (simp_all add: startListening_def sendStartListening_def drop and_then_def)
  show "\<exists>rt'. stopListening (b, rt) = Inr (b\<lparr>isListening := False\<rparr>, rt') \<and> sent rt' = sent rt"
    using c by (cases "isListening b") (simp_all add: stopListening_def sendStopListening_def drop and_then_def)
qed

text \<open>Both cases on a bridge without channel and on one whose channel never connected.\<close>

theorem control_when_disconnected_witness:
  "heygenClient (idle_bridge None) = None
   \<and> speakText ''hello'' (idle_bridge None, boot sample_entropy) = Inl ClientNotAvailable
   \<and> interrupt (idle_bridge None, boot sample_entropy) = Inr (idle_bridge None, boot sample_entropy)
   \<and> startListening (idle_bridge None, boot sample_entropy) = Inr (idle_bridge None, boot sample_entropy)
   \<and> stopListening (idle_bridge None, boot sample_entropy) = Inr (idle_bridge None, boot sample_entropy)
   \<and> heygenClient (idle_bridge (Some new_client)) = Some new_client
   \<and> \<not> (ws new_client \<noteq> None \<and> isConnected new_client)
   \<and> (\<exists>rt'. speakText ''hello'' (idle_bridge (Some new_client), boot sample_entropy)
                = Inr ((idle_bridge (Some new_client))\<lparr>currentSpeakEventId := Some ''1700000000000_4fzyo82''\<rparr>, rt')
         \<and> sent rt' = [])
   \<and> (\<exists>rt'. interrupt (idle_bridge (Some new_client), boot sample_entropy)
                = Inr (idle_bridge (Some new_client), rt') \<and> sent rt' = [])
   \<and> (\<exists>rt'. startListening (idle_bridge (Some new_client), boot sample_entropy)
                = Inr ((idle_bridge (Some new_client))\<lparr>isListening := True\<rparr>, rt') \<and> sent rt' = [])
   \<and> (\<exists>rt'. stopListening (idle_bridge (Some new_client), boot sample_entropy)
                = Inr ((idle_bridge (Some new_client))\<lparr>isListening := False\<rparr>, rt') \<and> sent rt' = [])"
proof -
  have n: "heygenClient (idle_bridge None) = None"
    and c: "heygenClient (idle_bridge (Some new_client)) = Some new_client"
    and d: "\<not> (ws new_client \<noteq> None \<and> isConnected new_client)"
    and t: "\<not> truthy (currentSpeakEventId (idle_bridge (Some new_client)))"
    by (simp_all add: idle_bridge_def new_client_def truthy_def)
  have i: "event_id_at (boot sample_entropy) (calls (boot sample_entropy)) = ''1700000000000_4fzyo82''"
    by (simp add: event_id_at_def boot_def sample_entropy_def formatEventId_def substring_def
        digit_char_def dec.simps)
  have s: "sent (boot sample_entropy) = []" by (simp add: boot_def)
  show ?thesis
    using n c d
      control_when_disconnected [of "idle_bridge None" "''hello''" "boot sample_entropy" new_client]
      control_when_disconnected [of "idle_bridge (Some new_client)" "''hello''" "boot sample_entropy" new_client]
    unfolding i s by (simp add: t)
qed

section \<open>The delayed end of a simulated utterance\<close>

lemma speakText_result:
  assumes "speakText t (b0, rt0) = Inr (b1, rt1)"
  shows "heygenClient b1 = heygenClient b0 \<and> heygenClient b0 \<noteq> None
         \<and> currentSpeakEventId b1 = Some (event_id_at rt0 (calls rt0))"
  using assms
  by (auto simp: speakText_def sendSpeak_def and_then_def Let_def split: option.splits sum.splits
      dest: command_returns)

lemma speakText_timeout_idle:
  "\<not> truthy (currentSpeakEventId b) \<Longrightarrow> speakText_timeout (b, rt) = Inr (b, rt)"
  by (simp add: speakText_timeout_def)

text \<open>
  C10. After \<open>speakText\<close> has scheduled its continuation: \<open>interrupt\<close>, the provider
  events \<^verbatim>\<open>agent.speak_ended\<close> and \<^verbatim>\<open>agent.speak_interrupted\<close>, and a
  \<^verbatim>\<open>response.done\<close> event on an open channel each clear \<open>currentSpeakEventId\<close>; and
  whenever any action has left it cleared, the continuation changes nothing: it
  writes no \<^verbatim>\<open>agent.speak_end\<close> frame and the identifier stays cleared.
\<close>

theorem suppressed_speak_end:
  assumes "speakText t (b0, rt0) = Inr (b1, rt1)"
  shows "(\<forall>b2 rt2. interrupt (b1, rt1) = Inr (b2, rt2) \<longrightarrow>
            currentSpeakEventId b2 = None \<and> speakText_timeout (b2, rt2) = Inr (b2, rt2))
       \<and> (\<forall>ty b2 rt2. (ty = ''agent.speak_ended'' \<or> ty = ''agent.speak_interrupted'')
              \<and> onHeyGenEvent ty (b1, rt1) = (b2, rt2) \<longrightarrow>
            currentSpeakEventId b2 = None \<and> speakText_timeout (b2, rt2) = Inr (b2, rt2))
       \<and> (\<forall>b2 rt2. getState_isConnected (b1, rt1)
              \<and> processOpenAIEvent (event ''response.done'') (b1, rt1) = Inr (b2, rt2) \<longrightarrow>
            currentSpeakEventId b2 = None \<and> speakText_timeout (b2, rt2) = Inr (b2, rt2))
       \<and> (\<forall>act b2 rt2. act (b1, rt1) = Inr (b2, rt2) \<and> currentSpeakEventId b2 = None \<longrightarrow>
            speakText_timeout (b2, rt2) = Inr (b2, rt2))"
proof -
  from speakText_result [OF assms] obtain c where
    c: "heygenClient b1 = Some c" and i: "currentSpeakEventId b1 = Some (event_id_at rt0 (calls rt0))"
    by auto
  have tr: "truthy (currentSpeakEventId b1)"
    by (simp add: i event_id_at_def formatEventId_truthy)
  have idle: "currentSpeakEventId b = None \<Longrightarrow> speakText_timeout (b, rt) = Inr (b, rt)" for b rt
    by (simp add: speakText_timeout_idle truthy_def)
  have 1: "currentSpeakEventId b2 = None" if "interrupt (b1, rt1) = Inr (b2, rt2)" for b2 rt2
    using that c tr by (auto simp: interrupt_def and_then_def split: sum.splits)
  have 2: "currentSpeakEventId b2 = None"
    if "ty = ''agent.speak_ended'' \<or> ty = ''agent.speak_interrupted''"
      and "onHeyGenEvent ty (b1, rt1) = (b2, rt2)" for ty b2 rt2
    using that by (auto simp: onHeyGenEvent_def)
  have 3: "currentSpeakEventId b2 = None"
    if "getState_isConnected (b1, rt1)"
      and "processOpenAIEvent (event ''response.done'') (b1, rt1) = Inr (b2, rt2)" for b2 rt2
    using that c tr
    by (auto simp: getState_isConnected_def processOpenAIEvent_def handleOpenAIResponseDone_def
        event_def Let_def and_then_def split: sum.splits)
  show ?thesis using 1 2 3 idle by blast
qed

lemma speakText_open:
  assumes c: "heygenClient b = Some c" and o: "isConnectionOpen c rt"
  shows "\<exists>rt1. speakText t (b, rt)
             = Inr (b\<lparr>currentSpeakEventId := Some (event_id_at rt (calls rt))\<rparr>, rt1)
           \<and> sent rt1 = sent rt @ [(the (ws c), \<lparr>type = ''agent.speak'',
                  event_id = event_id_at rt (calls rt), audio = Some []\<rparr>)]
           \<and> sockets rt1 = sockets rt \<and> entropy rt1 = entropy rt \<and> calls rt1 = Suc (calls rt)
           \<and> timeouts rt1 = timeouts rt @ [(SpeakEnd, 1000)]"
proof -
  define rt0 where "rt0 = console_log LOG (''Would speak text if TTS was integrated: '' @ t) rt"
  have o0: "isConnectionOpen c rt0" by (simp add: rt0_def o)
  from command_open [OF o0, of "''agent.speak''" "Some []"] obtain rt2 where
    r: "sendSpeak [] c rt0 = Inr (event_id_at rt (calls rt), rt2)"
    and f: "sent rt2 = sent rt @ [(the (ws c), \<lparr>type = ''agent.speak'',
                  event_id = event_id_at rt (calls rt), audio = Some []\<rparr>)]"
      "sockets rt2 = sockets rt" "entropy rt2 = entropy rt" "calls rt2 = Suc (calls rt)"
      "timeouts rt2 = timeouts rt"
    by (auto simp: sendSpeak_def rt0_def)
  have "speakText t (b, rt) = Inr (b\<lparr>currentSpeakEventId := Some (event_id_at rt (calls rt))\<rparr>,
      rt2\<lparr>timeouts := timeouts rt2 @ [(SpeakEnd, 1000)]\<rparr>)"
    using c r by (simp add: speakText_def Let_def rt0_def and_then_def)
  then show ?thesis using f by auto
qed

lemma interrupt_open:
  assumes c: "heygenClient b = Some c" and o: "isConnectionOpen c rt"
    and t: "truthy (currentSpeakEventId b)"
  shows "\<exists>rt1. interrupt (b, rt) = Inr (b\<lparr>currentSpeakEventId := None\<rparr>, rt1)
           \<and> sent rt1 = sent rt @ [frame (the (ws c)) ''agent.interrupt'' (event_id_at rt (calls rt))]"
proof -
  from command_open [OF o, of "''agent.interrupt''" None] obtain rt2 where
    r: "sendInterrupt c rt = Inr (event_id_at rt (calls rt), rt2)"
    and f: "sent rt2 = sent rt @ [frame (the (ws c)) ''agent.interrupt'' (event_id_at rt (calls rt))]"
    by (auto simp: sendInterrupt_def frame_def)
  have "interrupt (b, rt) = Inr (b\<lparr>currentSpeakEventId := None\<rparr>,
      console_log LOG ''Manually interrupted HeyGen speech'' rt2)"
    using c t r by (simp add: interrupt_def and_then_def)
  then show ?thesis using f by auto
qed

lemma response_done_open:
  assumes c: "heygenClient b = Some c" and o: "isConnectionOpen c rt"
    and t: "truthy (currentSpeakEventId b)"
  shows "\<exists>rt1. processOpenAIEvent (event ''response.done'') (b, rt)
             = Inr (b\<lparr>currentSpeakEventId := None\<rparr>, rt1)
           \<and> sent rt1 = sent rt @ [frame (the (ws c)) ''agent.speak_end'' (event_id_at rt (calls rt))]"
proof -
  define rt0 where "rt0 = console_log LOG ''Response completed''
      (console_log LOG ''Processing OpenAI event: response.done''
        (console_log LOG ''Received OpenAI event: response.done'' rt))"
  have o0: "isConnectionOpen c rt0" by (simp add: rt0_def o)
  from command_open [OF o0, of "''agent.speak_end''" None] obtain rt2 where
    r: "sendSpeakEnd None c rt0 = Inr (event_id_at rt (calls rt), rt2)"
    and f: "sent rt2 = sent rt @ [frame (the (ws c)) ''agent.speak_end'' (event_id_at rt (calls rt))]"
    by (auto simp: sendSpeakEnd_def frame_def rt0_def)
  have "processOpenAIEvent (event ''response.done'') (b, rt)
      = handleOpenAIResponseDone (b, rt0)"
    using c o by (simp add: processOpenAIEvent_def event_def Let_def rt0_def)
  also have "\<dots> = Inr (b\<lparr>currentSpeakEventId := None\<rparr>,
      console_log LOG ''Ended HeyGen speech session'' rt2)"
    using c t r by (simp add: handleOpenAIResponseDone_def and_then_def)
  finally show ?thesis using f by auto
qed

text \<open>The three clearing actions after \<open>speakText\<close> on the concrete connected channel.\<close>

theorem suppressed_speak_end_witness:
  "\<exists>b1 rt1. speakText ''hi'' (idle_bridge (Some open_client), open_runtime) = Inr (b1, rt1)
     \<and> (\<exists>b2 rt2. interrupt (b1, rt1) = Inr (b2, rt2)
           \<and> currentSpeakEventId b2 = None \<and> speakText_timeout (b2, rt2) = Inr (b2, rt2)
           \<and> outbound rt2 = [''agent.speak'', ''agent.interrupt''])
     \<and> (\<exists>b2 rt2. onHeyGenEvent ''agent.speak_ended'' (b1, rt1) = (b2, rt2)
           \<and> currentSpeakEventId b2 = None \<and> speakText_timeout (b2, rt2) = Inr (b2, rt2))
     \<and> getState_isConnected (b1, rt1)
     \<and> (\<exists>b2 rt2. processOpenAIEvent (event ''response.done'') (b1, rt1) = Inr (b2, rt2)
           \<and> currentSpeakEventId b2 = None \<and> speakText_timeout (b2, rt2) = Inr (b2, rt2)
           \<and> outbound rt2 = [''agent.speak'', ''agent.speak_end''])"
proof -
  have h1: "heygenClient (idle_bridge (Some open_client)) = Some open_client"
    by (simp add: idle_bridge_def)
  from speakText_open [OF h1 open_state_facts(1), of "''hi''"] obtain b1 rt1 where
    st: "speakText ''hi'' (idle_bridge (Some open_client), open_runtime) = Inr (b1, rt1)"
    and b1: "b1 = (idle_bridge (Some open_client))\<lparr>currentSpeakEventId :=
        Some (event_id_at open_runtime (calls open_runtime))\<rparr>"
    and s1: "outbound rt1 = [''agent.speak'']" and k1: "sockets rt1 = sockets open_runtime"
    by (auto simp: outbound_def open_state_facts)
  have c1: "heygenClient b1 = Some open_client" by (simp add: b1 idle_bridge_def)
  have o1: "isConnectionOpen open_client rt1"
    using open_state_facts(1) isConnectionOpen_sockets [OF k1, of open_client] by simp
  have t1: "truthy (currentSpeakEventId b1)" by (simp add: b1 event_id_at_def formatEventId_truthy)
  note main = suppressed_speak_end [OF st]
  from interrupt_open [OF c1 o1 t1] obtain b2 rt2 where
    i: "interrupt (b1, rt1) = Inr (b2, rt2)" and si: "outbound rt2 = [''agent.speak'', ''agent.interrupt'']"
    using s1 by (auto simp: outbound_def frame_def)
  obtain b3 rt3 where e: "onHeyGenEvent ''agent.speak_ended'' (b1, rt1) = (b3, rt3)"
    by (cases "onHeyGenEvent ''agent.speak_ended'' (b1, rt1)")
  from response_done_open [OF c1 o1 t1] obtain b4 rt4 where
    d: "processOpenAIEvent (event ''response.done'') (b1, rt1) = Inr (b4, rt4)"
    and sd: "outbound rt4 = [''agent.speak'', ''agent.speak_end'']"
    using s1 by (auto simp: outbound_def frame_def)
  have g: "getState_isConnected (b1, rt1)" using c1 o1 by (simp add: getState_isConnected_def)
  from main i have "currentSpeakEventId b2 = None \<and> speakText_timeout (b2, rt2) = Inr (b2, rt2)"
    by blast
  moreover from main e have "currentSpeakEventId b3 = None \<and> speakText_timeout (b3, rt3) = Inr (b3, rt3)"
    by blast
  moreover from main g d have "currentSpeakEventId b4 = None \<and> speakText_timeout (b4, rt4) = Inr (b4, rt4)"
    by blast
  ultimately show ?thesis using st i si e g d sd by blast
qed

section \<open>Closures and reconnection\<close>

lemma do_step_Close:
  assumes "h < length (sockets rt)" and "sockets rt ! h = OPEN \<or> sockets rt ! h = CLOSING"
    and "uncaught rt = []"
  shows "\<exists>c' rt'. do_step (Close h code) (c, rt) = Some (c', rt')
     \<and> \<not> isConnected c' \<and> heartbeatInterval c' = None \<and> ws c' = ws c
     \<and> reconnectAttempts c' = reconnectAttempts c \<and> maxReconnectAttempts c' = maxReconnectAttempts c
     \<and> reconnectDelay c' = reconnectDelay c \<and> errorListener c' = errorListener c
     \<and> sockets rt' = (sockets rt)[h := CLOSED] \<and> uncaught rt' = []
     \<and> intervals rt' = (case heartbeatInterval c of None \<Rightarrow> intervals rt
                          | Some t \<Rightarrow> removeAll t (intervals rt))
     \<and> timeouts rt' = timeouts rt @
          (if code \<noteq> 1000 \<and> reconnectAttempts c < maxReconnectAttempts c
           then [(Reconnect, reconnectDelay c * reconnectAttempts c)] else [])"
  using assms
  by (cases "heartbeatInterval c")
    (simp_all add: onClose_def stopHeartbeat_def console_log_def Let_def)

lemma do_step_Fire:
  assumes "timeouts rt = [(Reconnect, d)]" and "uncaught rt = []"
  shows "\<exists>c' rt'. do_step (Fire 0 True) (c, rt) = Some (c', rt')
     \<and> isConnected c' = isConnected c \<and> heartbeatInterval c' = heartbeatInterval c
     \<and> ws c' = Some (length (sockets rt))
     \<and> reconnectAttempts c' = Suc (reconnectAttempts c) \<and> maxReconnectAttempts c' = maxReconnectAttempts c
     \<and> reconnectDelay c' = reconnectDelay c \<and> errorListener c' = errorListener c
     \<and> sockets rt' = sockets rt @ [CONNECTING] \<and> uncaught rt' = []
     \<and> intervals rt' = intervals rt \<and> timeouts rt' = []"
  using assms by (simp add: reconnect_def connect_def console_log_def Let_def)

lemma onError_fields:
  assumes "errorListener c" and "onError h (c, rt) = (c', rt')"
  shows "c' = c \<and> sockets rt' = sockets rt \<and> timeouts rt' = timeouts rt
         \<and> intervals rt' = intervals rt \<and> uncaught rt' = uncaught rt"
  using assms
  by (auto simp: onError_def console_log_def Let_def split: if_splits promise.splits)

lemma do_step_Error:
  assumes "h < length (sockets rt)" and "sockets rt ! h \<noteq> CLOSED" and "uncaught rt = []"
    and "errorListener c"
  shows "\<exists>rt'. do_step (Error h) (c, rt) = Some (c, rt')
     \<and> sockets rt' = (sockets rt)[h := CLOSING] \<and> uncaught rt' = []
     \<and> intervals rt' = intervals rt \<and> timeouts rt' = timeouts rt"
proof -
  obtain c' rt' where e: "onError h (c, rt\<lparr>sockets := (sockets rt)[h := CLOSING]\<rparr>) = (c', rt')"
    by (cases "onError h (c, rt\<lparr>sockets := (sockets rt)[h := CLOSING]\<rparr>)")
  from onError_fields [OF assms(4) e] assms(1-3) e show ?thesis by simp
qed

lemma close_then_retry:
  assumes r: "retrying k h (c, rt)" and k: "k < 5" and a: "code \<noteq> 1000"
    and l: "errorListener c"
  shows "\<exists>s1 s2 s3. do_step (Close h code) (c, rt) = Some s1
           \<and> timeouts (snd s1) = [(Reconnect, 1000 * k)]
           \<and> do_step (Fire 0 True) s1 = Some s2
           \<and> do_step (Error (length (sockets rt))) s2 = Some s3
           \<and> retrying (Suc k) (length (sockets rt)) s3 \<and> errorListener (fst s3)
           \<and> length (sockets (snd s3)) = Suc (length (sockets rt))"
proof -
  from r have h: "h < length (sockets rt)" "sockets rt ! h = OPEN \<or> sockets rt ! h = CLOSING"
    and others: "\<forall>j < length (sockets rt). j \<noteq> h \<longrightarrow> sockets rt ! j = CLOSED"
    and f: "timeouts rt = []" "uncaught rt = []" "reconnectAttempts c = k"
      "maxReconnectAttempts c = 5" "reconnectDelay c = 1000"
    by (simp_all add: retrying_def)
  from do_step_Close [OF h f(2), of code c] obtain c1 rt1 where
    s1: "do_step (Close h code) (c, rt) = Some (c1, rt1)"
    and f1: "reconnectAttempts c1 = k" "maxReconnectAttempts c1 = 5" "reconnectDelay c1 = 1000"
      "sockets rt1 = (sockets rt)[h := CLOSED]" "timeouts rt1 = [(Reconnect, 1000 * k)]"
      "uncaught rt1 = []" "errorListener c1"
    using f k a l by auto
  from do_step_Fire [OF f1(5,6), of c1] obtain c2 rt2 where
    s2: "do_step (Fire 0 True) (c1, rt1) = Some (c2, rt2)"
    and f2: "reconnectAttempts c2 = Suc k" "maxReconnectAttempts c2 = 5" "reconnectDelay c2 = 1000"
      "sockets rt2 = (sockets rt)[h := CLOSED] @ [CONNECTING]" "timeouts rt2 = []"
      "uncaught rt2 = []" "errorListener c2"
    using f1 by auto
  have n: "length (sockets rt) < length (sockets rt2)"
    "sockets rt2 ! length (sockets rt) \<noteq> CLOSED"
    by (simp_all add: f2(4) nth_append)
  from do_step_Error [OF n f2(6,7)] obtain rt3 where
    s3: "do_step (Error (length (sockets rt))) (c2, rt2) = Some (c2, rt3)"
    and f3: "sockets rt3 = (sockets rt2)[length (sockets rt) := CLOSING]" "uncaught rt3 = []"
      "timeouts rt3 = timeouts rt2"
    by blast
  have k3: "sockets rt3 = (sockets rt)[h := CLOSED] @ [CLOSING]"
    by (simp add: f3(1) f2(4) list_update_append)
  have "retrying (Suc k) (length (sockets rt)) (c2, rt3)"
    using f2 f3 h others by (auto simp: retrying_def k3 nth_append nth_list_update)
  then show ?thesis using s1 s2 s3 f1(5) f2(7) k3 by auto
qed

lemma close_last:
  assumes r: "retrying 5 h (c, rt)"
  shows "\<exists>s1. do_step (Close h code) (c, rt) = Some s1 \<and> dead s1 \<and> reconnectAttempts (fst s1) = 5"
proof -
  from r have h: "h < length (sockets rt)" "sockets rt ! h = OPEN \<or> sockets rt ! h = CLOSING"
    and others: "\<forall>j < length (sockets rt). j \<noteq> h \<longrightarrow> sockets rt ! j = CLOSED"
    and f: "timeouts rt = []" "uncaught rt = []" "reconnectAttempts c = 5" "maxReconnectAttempts c = 5"
    by (simp_all add: retrying_def)
  from do_step_Close [OF h f(2), of code c] obtain c1 rt1 where
    s1: "do_step (Close h code) (c, rt) = Some (c1, rt1)"
    and f1: "\<not> isConnected c1" "reconnectAttempts c1 = 5"
      "sockets rt1 = (sockets rt)[h := CLOSED]" "timeouts rt1 = []" "uncaught rt1 = []"
    using f by auto
  have "list_all (\<lambda>st. st = CLOSED) (sockets rt1)"
    unfolding f1(3) list_all_length
  proof (intro allI impI)
    fix n assume "n < length ((sockets rt)[h := CLOSED])"
    then show "(sockets rt)[h := CLOSED] ! n = CLOSED"
      using others by (cases "n = h") simp_all
  qed
  then have "dead (c1, rt1)" using f1 by (simp add: dead_def)
  then show ?thesis using s1 f1(2) by auto
qed

lemma dead_step:
  assumes "dead s" and "\<forall>ok. x \<noteq> Connect ok" and "do_step x s = Some s'"
  shows "dead s'"
proof (cases s)
  case (Pair c rt)
  with assms(1) have d: "\<not> isConnected c" "timeouts rt = []" "list_all (\<lambda>st. st = CLOSED) (sockets rt)"
    "uncaught rt = []"
    by (simp_all add: dead_def)
  from d(3) have closed: "h < length (sockets rt) \<Longrightarrow> sockets rt ! h = CLOSED" for h
    by (simp add: list_all_length)
  show ?thesis
  proof (cases x)
    case (Connect ok)
    with assms(2) show ?thesis by blast
  next
    case (Open h)
    with assms(3) Pair closed [of h] show ?thesis by (simp split: if_splits)
  next
    case (Error h)
    with assms(3) Pair closed [of h] show ?thesis by (simp split: if_splits)
  next
    case (Close h code)
    with assms(3) Pair closed [of h] show ?thesis by (simp split: if_splits)
  next
    case Disconnect
    have "sockets (ws_close h r) = sockets rt \<and> timeouts (ws_close h r) = timeouts rt
        \<and> uncaught (ws_close h r) = uncaught rt"
      if "sockets r = sockets rt" "timeouts r = timeouts rt" "uncaught r = uncaught rt" for h r
      using closed [of h] that by (auto simp: ws_close_def)
    with assms(3) Pair Disconnect d show ?thesis
      by (auto simp: disconnect_def stopHeartbeat_def dead_def split: option.splits if_splits)
  next
    case (Fire i ok)
    with assms(3) Pair d(2) show ?thesis by (simp split: if_splits)
  qed
qed

lemma dead_exec:
  "dead s \<Longrightarrow> \<forall>ok. Connect ok \<notin> set steps \<Longrightarrow> exec steps s = Some s' \<Longrightarrow> dead s'"
proof (induction steps arbitrary: s)
  case Nil
  then show ?case by simp
next
  case (Cons x xs)
  from Cons.prems(3) obtain s1 where 1: "do_step x s = Some s1" and 2: "exec xs s1 = Some s'"
    by (auto split: option.splits)
  from Cons.prems(2) have "\<forall>ok. x \<noteq> Connect ok" "\<forall>ok. Connect ok \<notin> set xs" by auto
  with dead_step [OF Cons.prems(1) _ 1] Cons.IH [OF _ _ 2] show ?case by blast
qed

lemma closures_exec:
  assumes "retrying k h (c, rt)" and "errorListener c" and "k + length codes = 6"
    and "\<forall>code \<in> set codes. code \<noteq> 1000" and "codes \<noteq> []"
  shows "\<exists>s'. exec (closures h (length (sockets rt)) codes) (c, rt) = Some s' \<and> dead s'
           \<and> reconnectAttempts (fst s') = 5"
  using assms
proof (induction codes arbitrary: k h c rt)
  case Nil
  then show ?case by simp
next
  case (Cons code codes)
  show ?case
  proof (cases codes)
    case Nil
    with Cons.prems have "retrying 5 h (c, rt)" by simp
    from close_last [OF this, of code] Nil show ?thesis by (auto simp del: do_step.simps)
  next
    case (Cons code2 rest)
    with Cons.prems have k: "k < 5" and a: "code \<noteq> 1000" by simp_all
    from close_then_retry [OF Cons.prems(1) k a Cons.prems(2)] obtain s1 s2 c3 rt3 where
      1: "do_step (Close h code) (c, rt) = Some s1"
      and 2: "do_step (Fire 0 True) s1 = Some s2"
      and 3: "do_step (Error (length (sockets rt))) s2 = Some (c3, rt3)"
      and r: "retrying (Suc k) (length (sockets rt)) (c3, rt3)"
      and e: "errorListener c3"
      and l: "length (sockets rt3) = Suc (length (sockets rt))"
      by (metis prod.collapse)
    from Cons.prems Cons have "Suc k + length codes = 6" "\<forall>code \<in> set codes. code \<noteq> 1000"
      "codes \<noteq> []" by simp_all
    from Cons.IH [OF r e this] obtain s' where
      "exec (closures (length (sockets rt)) (Suc (length (sockets rt))) codes) (c3, rt3) = Some s'"
      "dead s'" "reconnectAttempts (fst s') = 5"
      unfolding l by blast
    with 1 2 3 Cons show ?thesis by (auto simp del: do_step.simps)
  qed
qed

lemma closures_delay:
  assumes "retrying k h (c, rt)" and "length codes = 1 \<or> errorListener c"
    and "k + length codes \<le> 5" and "\<forall>code \<in> set codes. code \<noteq> 1000" and "codes \<noteq> []"
  shows "\<exists>s'. exec (closures h (length (sockets rt)) codes) (c, rt) = Some s'
           \<and> timeouts (snd s') = [(Reconnect, 1000 * (k + length codes - 1))]"
  using assms
proof (induction codes arbitrary: k h c rt)
  case Nil
  then show ?case by simp
next
  case (Cons code codes)
  from Cons.prems have k: "k < 5" and a: "code \<noteq> 1000" by simp_all
  show ?case
  proof (cases codes)
    case Nil
    from Cons.prems(1) have h: "h < length (sockets rt)"
      "sockets rt ! h = OPEN \<or> sockets rt ! h = CLOSING" "uncaught rt = []"
      and f: "timeouts rt = []" "reconnectAttempts c = k" "maxReconnectAttempts c = 5"
        "reconnectDelay c = 1000"
      by (simp_all add: retrying_def)
    from do_step_Close [OF h, of code c] obtain s1 where
      "do_step (Close h code) (c, rt) = Some s1" "timeouts (snd s1) = [(Reconnect, 1000 * k)]"
      using f k a by auto
    with Nil show ?thesis by (auto simp del: do_step.simps)
  next
    case (Cons code2 rest)
    with Cons.prems(2) have e0: "errorListener c" by simp
    from close_then_retry [OF Cons.prems(1) k a e0] obtain s1 s2 c3 rt3 where
      1: "do_step (Close h code) (c, rt) = Some s1"
      and 2: "do_step (Fire 0 True) s1 = Some s2"
      and 3: "do_step (Error (length (sockets rt))) s2 = Some (c3, rt3)"
      and r: "retrying (Suc k) (length (sockets rt)) (c3, rt3)"
      and e: "errorListener c3"
      and l: "length (sockets rt3) = Suc (length (sockets rt))"
      by (metis prod.collapse)
    from Cons.prems Cons e have "length codes = 1 \<or> errorListener c3"
      "Suc k + length codes \<le> 5" "\<forall>code \<in> set codes. code \<noteq> 1000" "codes \<noteq> []" by simp_all
    from Cons.IH [OF r this] obtain s' where
      "exec (closures (length (sockets rt)) (Suc (length (sockets rt))) codes) (c3, rt3) = Some s'"
      "timeouts (snd s') = [(Reconnect, 1000 * (Suc k + length codes - 1))]"
      unfolding l by blast
    with 1 2 3 Cons show ?thesis by (auto simp del: do_step.simps)
  qed
qed

lemma open_state_retrying: "retrying 0 0 (open_client, open_runtime)"
  by (simp add: retrying_def open_client_def open_runtime_def)

lemma watched_state_retrying: "retrying 0 0 (watched_client, open_runtime)"
  by (simp add: retrying_def watched_client_def open_client_def open_runtime_def)

text \<open>
  Without a listener for \<^verbatim>\<open>error\<close> the first reconnection that fails ends the run: the
  handler throws when it re-emits the error, and no \<^verbatim>\<open>close\<close> event follows.
\<close>

lemma unhandled_error_ends_run:
  "map_option (uncaught \<circ> snd) (exec [Close 0 1006, Fire 0 True, Error 1] (open_client, open_runtime))
     = Some [UnhandledError]
   \<and> exec [Close 0 1006, Fire 0 True, Error 1, Close 1 1006] (open_client, open_runtime) = None"
  by (simp add: open_client_def open_runtime_def onClose_def stopHeartbeat_def reconnect_def
      connect_def onError_def console_log_def Let_def)

text \<open>
  C2 (what the code does). Starting from a channel that has just opened, the
  reconnection scheduled by the \<open>n\<close>-th consecutive abnormal closure, for \<open>n\<close> from 1 to
  5, is delayed by \<open>(n - 1) * 1000\<close> milliseconds: the delay is computed from the
  attempt counter before the timer callback increments it, so the first
  reconnection is immediate and the fifth waits four seconds. (A second and later
  closure is that of a socket that failed to open, which takes a listener for
  \<^verbatim>\<open>error\<close> on the channel.)
\<close>

theorem reconnect_delay:
  assumes "retrying 0 h (c, rt)" and "1 \<le> n" and "n \<le> 5" and "length codes = n"
    and "\<forall>code \<in> set codes. code \<noteq> 1000" and "n = 1 \<or> errorListener c"
  shows "\<exists>s'. exec (closures h (length (sockets rt)) codes) (c, rt) = Some s'
           \<and> timeouts (snd s') = [(Reconnect, (n - 1) * 1000)]"
proof -
  from assms have "length codes = 1 \<or> errorListener c" "0 + length codes \<le> 5" "codes \<noteq> []"
    by auto
  from closures_delay [OF assms(1) this(1,2) assms(5) this(3)] assms(4) show ?thesis
    by (simp add: mult.commute)
qed

text \<open>The first abnormal closure of the concrete connected channel: delay 0.\<close>

theorem reconnect_delay_witness:
  "retrying 0 0 (open_client, open_runtime) \<and> (1::nat) \<le> 1 \<and> (1::nat) \<le> 5
   \<and> length [1006::nat] = 1 \<and> (1006::nat) \<noteq> 1000
   \<and> (\<exists>s'. exec [Close 0 1006] (open_client, open_runtime) = Some s'
         \<and> timeouts (snd s') = [(Reconnect, 0)])"
proof -
  have a: "(1::nat) \<le> 1" "(1::nat) \<le> 5" "length [1006::nat] = 1"
    "\<forall>code \<in> set [1006::nat]. code \<noteq> 1000" "(1::nat) = 1 \<or> errorListener open_client"
    by simp_all
  have l: "length (sockets open_runtime) = 1" by (simp add: open_runtime_def)
  from reconnect_delay [OF open_state_retrying a] open_state_retrying a(1-3) show ?thesis
    unfolding l by (simp del: do_step.simps exec.simps)
qed

text \<open>
  C5 as stated fails: \<open>connect\<close> has no guard against a live socket and the counter
  rises only when a timer fires. With two sockets in flight on a channel that has
  an \<^verbatim>\<open>error\<close> listener, the fifth consecutive abnormal closure leaves one
  reconnection pending with the counter at 4, the sixth schedules another one, and
  when both have fired the counter stands at 6.
\<close>

theorem two_sockets_counterexample:
  "map_option reconnect_view
     (exec [Connect True, Connect True, Open 0, Open 1,
            Close 0 1006, Close 1 1006, Fire 0 True, Fire 0 True,
            Error 2, Close 2 1006, Error 3, Close 3 1006, Fire 0 True, Fire 0 True,
            Error 4, Close 4 1006, Error 5]
        (new_client\<lparr>errorListener := True\<rparr>, boot sample_entropy))
     = Some (4, [(Reconnect, 4000)])
   \<and> map_option reconnect_view
     (exec [Connect True, Connect True, Open 0, Open 1,
            Close 0 1006, Close 1 1006, Fire 0 True, Fire 0 True,
            Error 2, Close 2 1006, Error 3, Close 3 1006, Fire 0 True, Fire 0 True,
            Error 4, Close 4 1006, Error 5, Close 5 1006]
        (new_client\<lparr>errorListener := True\<rparr>, boot sample_entropy))
     = Some (4, [(Reconnect, 4000), (Reconnect, 4000)])
   \<and> map_option reconnect_view
     (exec [Connect True, Connect True, Open 0, Open 1,
            Close 0 1006, Close 1 1006, Fire 0 True, Fire 0 True,
            Error 2, Close 2 1006, Error 3, Close 3 1006, Fire 0 True, Fire 0 True,
            Error 4, Close 4 1006, Error 5, Close 5 1006, Fire 0 True, Fire 0 True]
        (new_client\<lparr>errorListener := True\<rparr>, boot sample_entropy))
     = Some (6, [])"
  by (simp add: reconnect_view_def new_client_def boot_def connect_def onOpen_def onClose_def
      onError_def reconnect_def startHeartbeat_def stopHeartbeat_def console_log_def Let_def)

text \<open>
  C5 (as amended). On a channel with a listener for \<^verbatim>\<open>error\<close> that has just opened and
  keeps one socket at a time, after five consecutive abnormal closures, each
  followed by the reconnection it scheduled and the failure of the new socket, the
  sixth abnormal closure schedules nothing: no timer is pending, the channel is
  flagged disconnected, and it stays so under every sequence of steps that contains
  no explicit \<open>connect\<close>.
\<close>

theorem reconnect_bound:
  assumes "retrying 0 h (c, rt)" and "errorListener c" and "length codes = 6"
    and "\<forall>code \<in> set codes. code \<noteq> 1000"
  shows "\<exists>c' rt'. exec (closures h (length (sockets rt)) codes) (c, rt) = Some (c', rt')
           \<and> timeouts rt' = [] \<and> \<not> isConnected c' \<and> reconnectAttempts c' = 5
           \<and> uncaught rt' = []
           \<and> (\<forall>steps s''. (\<forall>ok. Connect ok \<notin> set steps) \<and> exec steps (c', rt') = Some s'' \<longrightarrow>
                 \<not> isConnected (fst s'') \<and> timeouts (snd s'') = [])"
proof -
  from assms(3) have "0 + length codes = 6" "codes \<noteq> []" by auto
  from closures_exec [OF assms(1,2) this(1) assms(4) this(2)] obtain c' rt' where
    e: "exec (closures h (length (sockets rt)) codes) (c, rt) = Some (c', rt')"
    and d: "dead (c', rt')" and r: "reconnectAttempts c' = 5"
    by (metis prod.collapse)
  have "\<not> isConnected (fst s'') \<and> timeouts (snd s'') = []"
    if "\<forall>ok. Connect ok \<notin> set steps" "exec steps (c', rt') = Some s''" for steps s''
    using dead_exec [OF d that] by (cases s'') (simp add: dead_def)
  moreover have "timeouts rt' = []" "\<not> isConnected c'" "uncaught rt' = []"
    using d by (simp_all add: dead_def)
  ultimately show ?thesis using e r by blast
qed

text \<open>Six closures with code 1006 on the concrete connected channel with an \<^verbatim>\<open>error\<close> listener.\<close>

theorem reconnect_bound_witness:
  "retrying 0 0 (watched_client, open_runtime) \<and> errorListener watched_client
   \<and> length [1006, 1006, 1006, 1006, 1006, 1006 :: nat] = 6
   \<and> (1006::nat) \<noteq> 1000
   \<and> (\<exists>c' rt'. exec [Close 0 1006, Fire 0 True, Error 1, Close 1 1006, Fire 0 True, Error 2,
                       Close 2 1006, Fire 0 True, Error 3, Close 3 1006, Fire 0 True, Error 4,
                       Close 4 1006, Fire 0 True, Error 5, Close 5 1006]
                   (watched_client, open_runtime) = Some (c', rt')
         \<and> timeouts rt' = [] \<and> \<not> isConnected c' \<and> reconnectAttempts c' = 5
         \<and> (\<exists>s''. exec [Disconnect] (c', rt') = Some s''
               \<and> \<not> isConnected (fst s'') \<and> timeouts (snd s'') = []))"
proof -
  have a: "length [1006, 1006, 1006, 1006, 1006, 1006 :: nat] = 6"
    "\<forall>code \<in> set [1006, 1006, 1006, 1006, 1006, 1006 :: nat]. code \<noteq> 1000" by simp_all
  have w: "errorListener watched_client" by (simp add: watched_client_def)
  have l: "length (sockets open_runtime) = 1" by (simp add: open_runtime_def)
  have t: "closures 0 1 [1006, 1006, 1006, 1006, 1006, 1006]
    = [Close 0 1006, Fire 0 True, Error 1, Close 1 1006, Fire 0 True, Error 2,
       Close 2 1006, Fire 0 True, Error 3, Close 3 1006, Fire 0 True, Error 4,
       Close 4 1006, Fire 0 True, Error 5, Close 5 1006]"
    by (simp add: numeral_eq_Suc)
  from reconnect_bound [OF watched_state_retrying w a] obtain c' rt' where
    e: "exec [Close 0 1006, Fire 0 True, Error 1, Close 1 1006, Fire 0 True, Error 2,
              Close 2 1006, Fire 0 True, Error 3, Close 3 1006, Fire 0 True, Error 4,
              Close 4 1006, Fire 0 True, Error 5, Close 5 1006]
          (watched_client, open_runtime) = Some (c', rt')"
    and f: "timeouts rt' = []" "\<not> isConnected c'" "reconnectAttempts c' = 5"
    and u: "uncaught rt' = []"
    and g: "\<forall>steps s''. (\<forall>ok. Connect ok \<notin> set steps) \<and> exec steps (c', rt') = Some s'' \<longrightarrow>
                 \<not> isConnected (fst s'') \<and> timeouts (snd s'') = []"
    unfolding l t by blast
  have d: "exec [Disconnect] (c', rt') = Some (disconnect (c', rt'))" using u by simp
  have "\<forall>ok. Connect ok \<notin> set [Disconnect]" by simp
  with g d have "\<not> isConnected (fst (disconnect (c', rt'))) \<and> timeouts (snd (disconnect (c', rt'))) = []"
    by blast
  moreover have "(1006::nat) \<noteq> 1000" by simp
  ultimately show ?thesis using e f d watched_state_retrying w a(1) by blast
qed

section \<open>The heartbeat timer\<close>

lemma handle_inv_step:
  assumes "handle_inv s" and "do_step x s = Some s'"
  shows "handle_inv s'"
proof (cases s)
  case (Pair c rt)
  show ?thesis
  proof (cases x)
    case (Connect ok)
    with assms Pair show ?thesis
      by (cases ok) (auto simp: handle_inv_def connect_def Let_def split: if_splits)
  next
    case (Open h)
    with assms Pair show ?thesis
      by (auto simp: handle_inv_def onOpen_def startHeartbeat_def Let_def split: if_splits)
  next
    case (Error h)
    with assms Pair show ?thesis
      by (auto simp: handle_inv_def onError_def console_log_def Let_def
          split: if_splits promise.splits)  next
    case (Close h code)
    with assms Pair show ?thesis
      by (auto simp: handle_inv_def onClose_def stopHeartbeat_def Let_def split: if_splits option.splits)
  next
    case Disconnect
    with assms Pair show ?thesis
      by (auto simp: handle_inv_def disconnect_def stopHeartbeat_def split: option.splits if_splits)
  next
    case (Fire i ok)
    with assms Pair show ?thesis
      by (cases ok) (auto simp: handle_inv_def reconnect_def connect_def Let_def split: if_splits)
  qed
qed

lemma timer_inv_step:
  assumes "handle_inv s" and "timer_inv s" and "\<forall>h. x = Open h \<longrightarrow> \<not> isConnected (fst s)"
    and "do_step x s = Some s'"
  shows "timer_inv s'"
proof (cases s)
  case (Pair c rt)
  show ?thesis
  proof (cases x)
    case (Connect ok)
    with assms Pair show ?thesis
      by (cases ok) (auto simp: timer_inv_def connect_def console_log_def Let_def split: if_splits)
  next
    case (Open h)
    with assms Pair show ?thesis
      by (auto simp: timer_inv_def handle_inv_def onOpen_def startHeartbeat_def console_log_def Let_def
          split: if_splits)
  next
    case (Error h)
    with assms Pair show ?thesis
      by (auto simp: timer_inv_def onError_def console_log_def Let_def
          split: if_splits promise.splits)  next
    case (Close h code)
    with assms Pair show ?thesis
      by (auto simp: timer_inv_def onClose_def stopHeartbeat_def console_log_def Let_def
          split: if_splits option.splits)
  next
    case Disconnect
    with assms Pair show ?thesis
      by (auto simp: timer_inv_def disconnect_def stopHeartbeat_def ws_close_def
          split: option.splits if_splits)
  next
    case (Fire i ok)
    with assms Pair show ?thesis
      by (cases ok) (auto simp: timer_inv_def reconnect_def connect_def console_log_def Let_def
          split: if_splits)
  qed
qed

lemma handle_inv_exec: "handle_inv s \<Longrightarrow> exec steps s = Some s' \<Longrightarrow> handle_inv s'"
proof (induction steps arbitrary: s)
  case Nil
  then show ?case by simp
next
  case (Cons x xs)
  from Cons.prems(2) obtain s1 where 1: "do_step x s = Some s1" and 2: "exec xs s1 = Some s'"
    by (auto split: option.splits)
  from Cons.IH [OF handle_inv_step [OF Cons.prems(1) 1] 2] show ?case .
qed

lemma timer_inv_exec:
  "handle_inv s \<Longrightarrow> timer_inv s \<Longrightarrow> orderly steps s \<Longrightarrow> exec steps s = Some s' \<Longrightarrow> timer_inv s'"
proof (induction steps arbitrary: s)
  case Nil
  then show ?case by simp
next
  case (Cons x xs)
  from Cons.prems(4) obtain s1 where 1: "do_step x s = Some s1" and 2: "exec xs s1 = Some s'"
    by (auto split: option.splits)
  from Cons.prems(3) 1 have o: "\<forall>h. x = Open h \<longrightarrow> \<not> isConnected (fst s)" and os: "orderly xs s1"
    by (auto simp del: do_step.simps)
  from Cons.IH [OF handle_inv_step [OF Cons.prems(1) 1] timer_inv_step [OF Cons.prems(1,2) o 1] os 2]
  show ?case .
qed

lemma exec_append:
  "exec (xs @ ys) s = (case exec xs s of None \<Rightarrow> None | Some s' \<Rightarrow> exec ys s')"
  by (induction xs arbitrary: s) (simp_all split: option.splits)

text \<open>
  C8 as stated fails: \<open>connect\<close> called again on a connected channel creates a second
  socket, and when that socket opens \<open>startHeartbeat\<close> overwrites the handle without
  clearing the first timer. Two interval timers then run while the channel is connected.
\<close>

theorem second_open_counterexample:
  "map_option heartbeat_view
     (exec [Connect True, Open 0, Connect True, Open 1] (new_client, boot sample_entropy))
   = Some (True, [0, 1])"
  by (simp add: heartbeat_view_def connect_def onOpen_def startHeartbeat_def console_log_def
      new_client_def boot_def Let_def)

text \<open>
  C8 (as amended). In every state reached from a new channel, with or without a
  listener for \<^verbatim>\<open>error\<close>, by connect, open, error, close, disconnect and reconnect steps, the heartbeat handle is set if and only if the
  channel is flagged connected. If no socket opened while the channel was already
  connected, exactly one interval timer runs if and only if the channel is
  connected, and it is the one the handle names. An open starts the timer; a close
  and an explicit disconnect cancel the timer that the handle names.
\<close>

theorem heartbeat_invariant:
  assumes "exec steps (new_client\<lparr>errorListener := l\<rparr>, boot E) = Some (c, rt)"
  shows "((heartbeatInterval c \<noteq> None) = isConnected c)
       \<and> (orderly steps (new_client\<lparr>errorListener := l\<rparr>, boot E) \<longrightarrow>
            ((length (intervals rt) = 1) = isConnected c)
            \<and> (\<forall>t. heartbeatInterval c = Some t \<longrightarrow> intervals rt = [t]))
       \<and> (\<forall>h s'. do_step (Open h) (c, rt) = Some s' \<longrightarrow>
            isConnected (fst s') \<and> heartbeatInterval (fst s') = Some (timers rt)
            \<and> timers rt \<in> set (intervals (snd s')))
       \<and> (\<forall>h code s'. do_step (Close h code) (c, rt) = Some s' \<longrightarrow>
            \<not> isConnected (fst s') \<and> heartbeatInterval (fst s') = None
            \<and> (\<forall>t. heartbeatInterval c = Some t \<longrightarrow> t \<notin> set (intervals (snd s'))))
       \<and> (\<forall>s'. do_step Disconnect (c, rt) = Some s' \<longrightarrow>
            \<not> isConnected (fst s') \<and> heartbeatInterval (fst s') = None
            \<and> (\<forall>t. heartbeatInterval c = Some t \<longrightarrow> t \<notin> set (intervals (snd s'))))"
proof -
  have h0: "handle_inv (new_client\<lparr>errorListener := l\<rparr>, boot E)"
    and t0: "timer_inv (new_client\<lparr>errorListener := l\<rparr>, boot E)"
    by (simp_all add: handle_inv_def timer_inv_def new_client_def boot_def)
  from handle_inv_exec [OF h0 assms] have h: "(heartbeatInterval c \<noteq> None) = isConnected c"
    by (simp add: handle_inv_def)
  have o: "((length (intervals rt) = 1) = isConnected c)
            \<and> (\<forall>t. heartbeatInterval c = Some t \<longrightarrow> intervals rt = [t])"
    if "orderly steps (new_client\<lparr>errorListener := l\<rparr>, boot E)"
  proof -
    from timer_inv_exec [OF h0 t0 that assms]
    have "intervals rt = (case heartbeatInterval c of None \<Rightarrow> [] | Some t \<Rightarrow> [t])"
      by (simp add: timer_inv_def)
    with h show ?thesis by (cases "heartbeatInterval c") auto
  qed
  have op: "isConnected (fst s') \<and> heartbeatInterval (fst s') = Some (timers rt)
            \<and> timers rt \<in> set (intervals (snd s'))"
    if "do_step (Open h) (c, rt) = Some s'" for h s'
    using that by (auto simp: onOpen_def startHeartbeat_def console_log_def Let_def split: if_splits)
  have cl: "\<not> isConnected (fst s') \<and> heartbeatInterval (fst s') = None
            \<and> (\<forall>t. heartbeatInterval c = Some t \<longrightarrow> t \<notin> set (intervals (snd s')))"
    if "do_step (Close h code) (c, rt) = Some s'" for h code s'
    using that
    by (auto simp: onClose_def stopHeartbeat_def console_log_def Let_def
        split: if_splits option.splits)
  have di: "\<not> isConnected (fst s') \<and> heartbeatInterval (fst s') = None
            \<and> (\<forall>t. heartbeatInterval c = Some t \<longrightarrow> t \<notin> set (intervals (snd s')))"
    if "do_step Disconnect (c, rt) = Some s'" for s'
    using that
    by (auto simp: disconnect_def stopHeartbeat_def ws_close_def split: if_splits option.splits)
  from h o op cl di show ?thesis by blast
qed

text \<open>The run connect, open, and then a close or a disconnect.\<close>

theorem heartbeat_invariant_witness:
  "\<exists>c0 rt0 c rt.
     exec [Connect True] (new_client, boot sample_entropy) = Some (c0, rt0)
     \<and> \<not> isConnected c0 \<and> heartbeatInterval c0 = None \<and> intervals rt0 = []
     \<and> do_step (Open 0) (c0, rt0) = Some (c, rt)
     \<and> exec [Connect True, Open 0] (new_client, boot sample_entropy) = Some (c, rt)
     \<and> orderly [Connect True, Open 0] (new_client, boot sample_entropy)
     \<and> isConnected c \<and> heartbeatInterval c = Some 0 \<and> intervals rt = [0]
     \<and> (\<exists>s'. do_step (Close 0 1006) (c, rt) = Some s'
           \<and> \<not> isConnected (fst s') \<and> heartbeatInterval (fst s') = None \<and> 0 \<notin> set (intervals (snd s')))
     \<and> (\<exists>s'. do_step Disconnect (c, rt) = Some s'
           \<and> \<not> isConnected (fst s') \<and> heartbeatInterval (fst s') = None \<and> 0 \<notin> set (intervals (snd s')))"
proof -
  have n: "new_client\<lparr>errorListener := False\<rparr> = new_client" by (simp add: new_client_def)
  obtain c0 rt0 where e0: "exec [Connect True] (new_client, boot sample_entropy) = Some (c0, rt0)"
    and f0: "\<not> isConnected c0" "sockets rt0 = [CONNECTING]" "timers rt0 = 0" "intervals rt0 = []"
      "uncaught rt0 = []"
    by (simp add: connect_def console_log_def new_client_def boot_def Let_def)
  obtain c rt where s: "do_step (Open 0) (c0, rt0) = Some (c, rt)" and k: "sockets rt = [OPEN]"
    and u: "uncaught rt = []"
    using f0 by (simp add: onOpen_def startHeartbeat_def console_log_def Let_def)
  have e: "exec [Connect True, Open 0] (new_client, boot sample_entropy) = Some (c, rt)"
    using exec_append [of "[Connect True]" "[Open 0]" "(new_client, boot sample_entropy)"]
    unfolding e0 using s by (simp del: do_step.simps)
  have ord: "orderly [Connect True, Open 0] (new_client, boot sample_entropy)"
    by (simp add: connect_def console_log_def new_client_def boot_def Let_def)
  note i0 = heartbeat_invariant [of "[Connect True]" False sample_entropy c0 rt0, unfolded n, OF e0]
  note i1 = heartbeat_invariant [of "[Connect True, Open 0]" False sample_entropy c rt, unfolded n, OF e]
  from i0 have "do_step (Open 0) (c0, rt0) = Some (c, rt) \<longrightarrow>
      isConnected (fst (c, rt)) \<and> heartbeatInterval (fst (c, rt)) = Some (timers rt0)" by blast
  with s f0(3) have a: "isConnected c" "heartbeatInterval c = Some 0"
    by (simp_all del: do_step.simps)
  from i0 f0(1) have b: "heartbeatInterval c0 = None" by blast
  from i1 ord a have iv: "intervals rt = [0]" by blast
  obtain s1 where c1: "do_step (Close 0 1006) (c, rt) = Some s1" using k u by simp
  obtain s2 where d1: "do_step Disconnect (c, rt) = Some s2" using u by simp
  from i1 c1 a have c2: "\<not> isConnected (fst s1)" "heartbeatInterval (fst s1) = None"
    "0 \<notin> set (intervals (snd s1))" by blast+
  from i1 d1 a have d2: "\<not> isConnected (fst s2)" "heartbeatInterval (fst s2) = None"
    "0 \<notin> set (intervals (snd s2))" by blast+
  from e0 f0(1,4) b s e ord a iv c1 c2 d1 d2 show ?thesis by blast
qed

end
